theory Spec2Isabelle
  imports
    Complex_Main
    "HOL-Library.Char_ord"
    "HOL-Library.List_Lexorder"
    "HOL-Library.Product_Lexorder"
begin

section \<open>Python and pandas primitives\<close>

text \<open>
  The pipeline is written against pandas and geopandas. The table operations it uses are
  embedded as list functions: a table is the list of its rows, in row order.
  Python strings are modelled as \<^typ>\<open>string\<close>; comparison is by character code, as in
  Python. Floating-point columns are idealised as \<^typ>\<open>real\<close>. A missing value (NaN, None)
  is \<^term>\<open>None\<close> of an option type.
\<close>

datatype py_error =
    FileNotFoundError string
  | KeyError string
  | ValueError string
  | RuntimeError string
  | MergeError string

text \<open>\<^verbatim>\<open>round(x)\<close> of Python 3 with one argument: nearest integer, ties to the even one.\<close>

definition py_round :: "real \<Rightarrow> int" where
  "py_round x =
     (let f = \<lfloor>x\<rfloor>; d = x - of_int f
      in if d < 1 / 2 then f
         else if 1 / 2 < d then f + 1
         else if even f then f else f + 1)"

text \<open>
  \<^verbatim>\<open>DataFrame.drop_duplicates(subset=key)\<close> with the default \<^verbatim>\<open>keep="first"\<close>: the first
  row of every key survives, in the original order.
\<close>

fun drop_duplicates :: "('a \<Rightarrow> 'k) \<Rightarrow> 'a list \<Rightarrow> 'a list" where
  "drop_duplicates key [] = []"
| "drop_duplicates key (x # xs) =
     x # drop_duplicates key (filter (\<lambda>y. key y \<noteq> key x) xs)"

text \<open>\<^verbatim>\<open>Series.nunique()\<close>: the number of distinct values, missing values not counted.\<close>

definition nunique :: "'a option list \<Rightarrow> nat" where
  "nunique xs = length (remdups (concat (map (\<lambda>x. case x of None \<Rightarrow> [] | Some v \<Rightarrow> [v]) xs)))"

text \<open>
  \<^verbatim>\<open>left.merge(right, on=key, how="left")\<close>: every left row, in order, once per matching
  right row, and once with a missing right side when nothing matches.
\<close>

definition merge_left :: "('a \<Rightarrow> 'k) \<Rightarrow> ('b \<Rightarrow> 'k) \<Rightarrow> 'a list \<Rightarrow> 'b list \<Rightarrow> ('a \<times> 'b option) list" where
  "merge_left kl kr left right =
     concat (map (\<lambda>l. case filter (\<lambda>r. kr r = kl l) right of
                          [] \<Rightarrow> [(l, None)]
                        | ms \<Rightarrow> map (\<lambda>r. (l, Some r)) ms) left)"

text \<open>Sort key of a column that may hold missing values: pandas puts them last.\<close>

definition na_last :: "'a option \<Rightarrow> bool \<times> 'a list" where
  "na_last x = (case x of Some v \<Rightarrow> (False, [v]) | None \<Rightarrow> (True, []))"

section \<open>Tract--site interactions (\<^verbatim>\<open>src/etl/tract_site_interactions.py\<close>)\<close>

text \<open>
  The geometry engine (shapely behind geopandas) is a parameter: \<open>buffer\<close> builds the
  buffer polygon of a projected site point for a distance in metres, \<open>intersects\<close> is
  the predicate of the spatial join, \<open>geom_type\<close> names the kind of a tract geometry.
\<close>

record ('p, 'g, 'b) geo_engine =
  buffer :: "'p \<Rightarrow> real \<Rightarrow> 'b"
  intersects :: "'g \<Rightarrow> 'b \<Rightarrow> bool"
  geom_type :: "'g \<Rightarrow> string"

text \<open>Rows of \<^verbatim>\<open>gdf_sites_m\<close> and of \<^verbatim>\<open>gdf_tracts_m\<close>, the two projected layers.\<close>

record 'p site_row =
  Index_ID :: "int option"
  point :: 'p

record 'g tract_row =
  GEOID :: string
  geometry :: 'g

text \<open>
  Rows of the pair table, columns \<^verbatim>\<open>Cover_Range, Geoid, Index_ID, Geometry,
  Count_Tract_Interact_Site_Range\<close>; the site column is named \<open>Site_ID\<close> here. The count is
  the result of a left merge, so the column can hold a missing value.
\<close>

record pair_row =
  Cover_Range :: int
  Geoid :: string
  Site_ID :: "int option"
  Geometry :: string
  Count_Tract_Interact_Site_Range :: "nat option"

definition MI_TO_M :: real where
  "MI_TO_M = 160934 / 100"

text \<open>
  \<^verbatim>\<open>gpd.sjoin(tracts, buffers, how="inner", predicate="intersects")\<close>: one row per
  (tract row, buffer row) whose geometries intersect, tract rows in their order.
\<close>

definition sjoin :: "('g \<Rightarrow> 'b \<Rightarrow> bool) \<Rightarrow> 'g tract_row list \<Rightarrow> (int option \<times> 'b) list
    \<Rightarrow> ('g tract_row \<times> int option) list" where
  "sjoin pred left right =
     concat (map (\<lambda>t. map (\<lambda>r. (t, fst r)) (filter (\<lambda>r. pred (geometry t) (snd r)) right)) left)"

text \<open>The deduplicated pairs of one radius, before the count is attached (lines 188--211).\<close>

definition pairs_for_radius ::
  "('p, 'g, 'b) geo_engine \<Rightarrow> 'p site_row list \<Rightarrow> 'g tract_row list \<Rightarrow> real
    \<Rightarrow> (int \<times> string \<times> int option \<times> string) list" where
  "pairs_for_radius eng sites tracts miles =
     (let buf = map (\<lambda>s. (Index_ID s, buffer eng (point s) (MI_TO_M * miles))) sites;
          pairs = drop_duplicates (\<lambda>(t, i). (GEOID t, i)) (sjoin (intersects eng) tracts buf)
      in map (\<lambda>(t, i). (py_round miles, GEOID t, i, geom_type eng (geometry t))) pairs)"

text \<open>
  \<^verbatim>\<open>pairs.groupby(["Cover_Range", "Geoid"])["Index_ID"].nunique().reset_index(...)\<close>:
  one row per key, keys in sorted order.
\<close>

definition count_sites :: "(int \<times> string \<times> int option \<times> string) list \<Rightarrow> ((int \<times> string) \<times> nat) list" where
  "count_sites pairs =
     map (\<lambda>k. (k, nunique (map (\<lambda>(c, g, i, ty). i) (filter (\<lambda>(c, g, i, ty). (c, g) = k) pairs))))
         (sort (remdups (map (\<lambda>(c, g, i, ty). (c, g)) pairs)))"

definition intersect_pairs_with_count ::
  "('p, 'g, 'b) geo_engine \<Rightarrow> 'p site_row list \<Rightarrow> 'g tract_row list \<Rightarrow> real
    \<Rightarrow> pair_row list \<times> ((int \<times> string) \<times> nat) list" where
  "intersect_pairs_with_count eng sites tracts miles =
     (let pairs = pairs_for_radius eng sites tracts miles;
          counts = count_sites pairs;
          pairs_tbl =
            map (\<lambda>((c, g, i, ty), m).
                   \<lparr>Cover_Range = c, Geoid = g, Site_ID = i, Geometry = ty,
                    Count_Tract_Interact_Site_Range = map_option snd m\<rparr>)
                (merge_left (\<lambda>(c, g, i, ty). (c, g)) fst pairs counts)
      in (pairs_tbl, counts))"

text \<open>
  The log of a run records warnings and errors; informational lines are left out.
\<close>

datatype log_event =
    Error_sites_file_not_found
  | Error_tract_file_not_found
  | Error_missing_site_columns "string list"
  | Error_all_Index_ID_missing
  | Error_no_site_rows
  | Error_no_GEOID_column
  | Error_no_geometry_column
  | Error_no_CRS
  | Warning_dropped_tracts nat
  | Error_no_tract_rows
  | Warning_no_pairs real
  | Error_no_pairs
  | Error_empty_output

text \<open>
  The two input files. The cleaned-sites CSV is its column names and its rows;
  \<open>Latitude\<close> and \<open>Longitude\<close> are the values after \<^verbatim>\<open>pd.to_numeric(errors="coerce")\<close>, a
  missing or non-numeric entry being \<^term>\<open>None\<close>. The tract shapefile is its column names,
  its CRS if it has one, and its rows, a row's geometry being \<^term>\<open>None\<close> when it is
  missing. A file that does not exist is \<^term>\<open>None\<close>.
\<close>

record csv_site_row =
  csv_Index_ID :: "int option"
  Latitude :: "real option"
  Longitude :: "real option"

record sites_csv =
  site_columns :: "string list"
  site_records :: "csv_site_row list"

record 'g shp_row =
  shp_GEOID :: string
  shp_geometry :: "'g option"

record 'g tract_shp =
  tract_columns :: "string list"
  crs :: "string option"
  tract_records :: "'g shp_row list"

text \<open>
  The coordinate operations of geopandas, parameters as well: \<open>project_site x y\<close> is
  \<^verbatim>\<open>points_from_xy(x, y)\<close> in EPSG:4326 followed by \<^verbatim>\<open>to_crs("EPSG:2163")\<close>,
  \<open>project_tract c g\<close> is \<^verbatim>\<open>to_crs("EPSG:2163")\<close> of a geometry given in the CRS \<open>c\<close>, and
  \<open>is_empty\<close> is the attribute of that name.
\<close>

record ('p, 'g) layer_engine =
  project_site :: "real \<Rightarrow> real \<Rightarrow> 'p"
  project_tract :: "string \<Rightarrow> 'g \<Rightarrow> 'g"
  is_empty :: "'g \<Rightarrow> bool"

text \<open>
  Steps 0 to 3 of \<^verbatim>\<open>run_tract_site_interactions\<close> (lines 61--172): both files must exist;
  the site table needs its three columns, an \<^verbatim>\<open>Index_ID\<close> that is not missing everywhere
  (\<^verbatim>\<open>isna().all()\<close>, which holds of a table without rows), and a row with both
  coordinates; the tract layer needs its two columns, a CRS, and a row whose geometry is
  neither missing nor empty, the other rows being dropped with a warning. Every raise is a
  logged error and an \<^term>\<open>Inl\<close>. The result is the two projected layers. The messages
  are those of the source without the file path, the list of columns and the quotes, with
  a hyphen for the dash.
\<close>

definition load_layers ::
  "('p, 'g) layer_engine \<Rightarrow> sites_csv option \<Rightarrow> 'g tract_shp option
    \<Rightarrow> log_event list \<times> (py_error + 'p site_row list \<times> 'g tract_row list)" where
  "load_layers prj sites_input tract_shp =
     (case sites_input of
        None \<Rightarrow> ([Error_sites_file_not_found],
                 Inl (FileNotFoundError ''[tract_site_interactions] Cleaned sites file not found''))
      | Some df_sites \<Rightarrow>
     (case tract_shp of
        None \<Rightarrow> ([Error_tract_file_not_found],
                 Inl (FileNotFoundError ''[tract_site_interactions] Tract shapefile not found''))
      | Some gdf_tracts \<Rightarrow>
     (let missing_site = filter (\<lambda>c. c \<notin> set (site_columns df_sites))
                           [''Index_ID'', ''Latitude'', ''Longitude'']
      in if missing_site \<noteq> [] then
           ([Error_missing_site_columns missing_site],
            Inl (KeyError ''[tract_site_interactions] Missing required column(s) in cleaned sites''))
         else if list_all (\<lambda>s. csv_Index_ID s = None) (site_records df_sites) then
           ([Error_all_Index_ID_missing],
            Inl (ValueError
              ''[tract_site_interactions] Index_ID must be populated for tract-site interactions.''))
         else
     (let df_sites = filter (\<lambda>s. Latitude s \<noteq> None \<and> Longitude s \<noteq> None) (site_records df_sites)
      in if length df_sites = 0 then
           ([Error_no_site_rows],
            Inl (ValueError
              ''[tract_site_interactions] No valid sites remain (Latitude/Longitude missing or invalid).''))
         else if ''GEOID'' \<notin> set (tract_columns gdf_tracts) then
           ([Error_no_GEOID_column],
            Inl (KeyError ''[tract_site_interactions] Expected column GEOID in Tract shapefile.''))
         else if ''geometry'' \<notin> set (tract_columns gdf_tracts) then
           ([Error_no_geometry_column],
            Inl (KeyError ''[tract_site_interactions] Tract shapefile missing geometry column.''))
         else
     (case crs gdf_tracts of
        None \<Rightarrow> ([Error_no_CRS],
                 Inl (ValueError ''[tract_site_interactions] Tract shapefile must have a defined CRS.''))
      | Some tract_crs \<Rightarrow>
     (let empty_geom = (\<lambda>t. case shp_geometry t of None \<Rightarrow> True | Some g \<Rightarrow> is_empty prj g);
          logs = (if list_ex empty_geom (tract_records gdf_tracts)
                  then [Warning_dropped_tracts (length (filter empty_geom (tract_records gdf_tracts)))]
                  else []);
          gdf_tracts = filter (\<lambda>t. \<not> empty_geom t) (tract_records gdf_tracts)
      in if length gdf_tracts = 0 then
           (logs @ [Error_no_tract_rows],
            Inl (ValueError
              ''[tract_site_interactions] Tract geometries are empty after filtering invalid geometry.''))
         else
           (logs,
            Inr (map (\<lambda>s. \<lparr>Index_ID = csv_Index_ID s,
                            point = project_site prj (the (Longitude s)) (the (Latitude s))\<rparr>)
                   df_sites,
                 map (\<lambda>t. \<lparr>GEOID = shp_GEOID t,
                            geometry = project_tract prj tract_crs (the (shp_geometry t))\<rparr>)
                   gdf_tracts))))))))"

text \<open>The configured radii: the first one is the epsilon of the 0-mile tier.\<close>

definition radii :: "real list" where
  "radii = [5 / 10000, 1, 2, 3, 5, 25, 75, 100]"

text \<open>The loop over the radii (lines 233--240).\<close>

fun radius_loop ::
  "('p, 'g, 'b) geo_engine \<Rightarrow> 'p site_row list \<Rightarrow> 'g tract_row list \<Rightarrow> real list
    \<Rightarrow> log_event list \<times> pair_row list list \<Rightarrow> log_event list \<times> pair_row list list" where
  "radius_loop eng sites tracts [] (logs, pairs_all) = (logs, pairs_all)"
| "radius_loop eng sites tracts (r # rs) (logs, pairs_all) =
     (let pairs_r = fst (intersect_pairs_with_count eng sites tracts r);
          logs' = (if length pairs_r = 0 then logs @ [Warning_no_pairs r] else logs)
      in radius_loop eng sites tracts rs (logs', pairs_all @ [pairs_r]))"

text \<open>
  Step 5 (lines 230--276) on the projected layers: the sweep over the given radii, the two
  emptiness checks, and the final sort by \<^verbatim>\<open>Cover_Range, Geoid, Index_ID\<close>. The check of the
  output columns (lines 257--271) cannot fail, the columns being fixed by
  \<^verbatim>\<open>intersect_pairs_with_count\<close>.
\<close>

definition radius_sweep ::
  "('p, 'g, 'b) geo_engine \<Rightarrow> 'p site_row list \<Rightarrow> 'g tract_row list \<Rightarrow> real list
    \<Rightarrow> log_event list \<times> (py_error + pair_row list)" where
  "radius_sweep eng sites tracts rs =
     (let (logs, pairs_all) = radius_loop eng sites tracts rs ([], [])
      in if pairs_all = [] then
           (logs @ [Error_no_pairs],
            Inl (RuntimeError ''[tract_site_interactions] No tract-site pairs were generated.''))
         else
           (let tract_site_int = concat pairs_all
            in if length tract_site_int = 0 then
                 (logs @ [Error_empty_output],
                  Inl (RuntimeError
                    ''[tract_site_interactions] No tract-site pairs were generated (empty output).''))
               else
                 (logs, Inr (sort_key (\<lambda>r. (Cover_Range r, Geoid r, na_last (Site_ID r)))
                              tract_site_int))))"

text \<open>
  \<^verbatim>\<open>run_tract_site_interactions\<close>: the layers are loaded and validated, then swept over the
  configured radii; the result is the table that step 6 writes to the output file.
\<close>

definition run_tract_site_interactions ::
  "('p, 'g, 'b) geo_engine \<Rightarrow> ('p, 'g) layer_engine \<Rightarrow> sites_csv option \<Rightarrow> 'g tract_shp option
    \<Rightarrow> log_event list \<times> (py_error + pair_row list)" where
  "run_tract_site_interactions eng prj sites_input tract_shp =
     (case load_layers prj sites_input tract_shp of
        (logs, Inl e) \<Rightarrow> (logs, Inl e)
      | (logs, Inr (gdf_sites_m, gdf_tracts_m)) \<Rightarrow>
          (let (logs', result) = radius_sweep eng gdf_sites_m gdf_tracts_m radii
           in (logs @ logs', result)))"

section \<open>Aggregations (\<^verbatim>\<open>src/etl/aggregations.py\<close>)\<close>

text \<open>
  A cell of a column read from a CSV file: pandas parses it as an integer or keeps it as
  text, and a missing entry is NaN. \<^verbatim>\<open>astype(str)\<close> applies \<^verbatim>\<open>str\<close> to every cell (floating
  point cells are not modelled; what \<^verbatim>\<open>str\<close> makes of them reaches the functions below as
  text).
\<close>

datatype cell = IntCell int | StrCell string | NaNCell

fun str_nat :: "nat \<Rightarrow> string" where
  "str_nat n =
     (if n < 10 then [''0123456789'' ! n]
      else str_nat (n div 10) @ [''0123456789'' ! (n mod 10)])"

declare str_nat.simps [simp del]

fun py_str :: "cell \<Rightarrow> string" where
  "py_str (IntCell i) = (if i < 0 then CHR ''-'' # str_nat (nat (- i)) else str_nat (nat i))"
| "py_str (StrCell s) = s"
| "py_str NaNCell = ''nan''"

text \<open>
  \<^verbatim>\<open>str.zfill(width)\<close>, which \<^verbatim>\<open>Series.str.zfill\<close> applies to every string: zeros are added on
  the left, after a leading sign; a string of \<open>width\<close> characters or more is returned as
  it is.
\<close>

definition zfill :: "nat \<Rightarrow> string \<Rightarrow> string" where
  "zfill width s =
     (if width \<le> length s then s
      else case s of
             [] \<Rightarrow> replicate width (CHR ''0'')
           | c # cs \<Rightarrow>
               if c = CHR ''+'' \<or> c = CHR ''-''
               then c # replicate (width - length s) (CHR ''0'') @ cs
               else replicate (width - length s) (CHR ''0'') @ s)"

definition BUFFERS :: "int list" where
  "BUFFERS = [0, 1, 2, 3, 5, 25, 75, 100]"

text \<open>
  Rows of \<^verbatim>\<open>df_tract_site_interactions\<close> (columns \<^verbatim>\<open>Cover_Range, Geoid, Index_ID\<close>), of
  \<^verbatim>\<open>df_sites\<close> (columns \<^verbatim>\<open>Index_ID, Site-Type, Customer Segment, Interested Party,
  #_Stalls_Filled\<close>, the last one missing when it is empty or not numeric) and of
  \<^verbatim>\<open>df_geocodemap\<close> (columns \<^verbatim>\<open>CLEAN_County Geoid, Metropolitan Division Code\<close>).
\<close>

record interaction_row =
  ix_Cover_Range :: "real option"
  ix_Geoid :: cell
  ix_Index_ID :: cell

record site_meta_row =
  sm_Index_ID :: cell
  Site_Type :: "string option"
  Customer_Segment :: "string option"
  Interested_Party :: "string option"
  Stalls_Filled :: "real option"

record 'm geocode_row =
  CLEAN_County_Geoid :: cell
  Metropolitan_Division_Code :: "'m option"

text \<open>
  Rows of an aggregate table. The region column is \<^verbatim>\<open>Tract_Geoid\<close>, \<^verbatim>\<open>County_GeoID\<close> or
  \<^verbatim>\<open>Metropolitan Division Code\<close>; the count column is \<^verbatim>\<open>Number of Customer Sites\<close> at tract
  level and \<^verbatim>\<open>Count_Customer_Sites\<close> above; the sum column is \<^verbatim>\<open>Total_#_Stalls\<close> at tract level
  and \<^verbatim>\<open>Total_Stalls_Filled\<close> above.
\<close>

record 'r agg_row =
  Range_Cover :: int
  Region_ID :: 'r
  Count_Customer_Sites :: nat
  agg_Site_Type :: "string option"
  agg_Customer_Segment :: "string option"
  agg_Interested_Party :: "string option"
  Total_Stalls :: real

type_synonym site_meta = "string \<times> string option \<times> string option \<times> string option \<times> real"

text \<open>
  Step 1 of the three builders (lines 64--75, 145--155, 249--259): the rows of the radius,
  tract ID and site ID as strings, the tract ID padded to 11 characters, duplicates dropped.
\<close>

definition select_pairs :: "int \<Rightarrow> interaction_row list \<Rightarrow> (string \<times> string) list" where
  "select_pairs buffer_miles df =
     drop_duplicates (\<lambda>p. p)
       (map (\<lambda>x. (zfill 11 (py_str (ix_Geoid x)), py_str (ix_Index_ID x)))
          (filter (\<lambda>x. ix_Cover_Range x = Some (of_int buffer_miles)) df))"

text \<open>The site metadata: the ID as a string, the stall count coerced to a number, 0 if missing.\<close>

definition site_meta_of :: "site_meta_row list \<Rightarrow> site_meta list" where
  "site_meta_of df_sites =
     map (\<lambda>m. (py_str (sm_Index_ID m), Site_Type m, Customer_Segment m, Interested_Party m,
                case Stalls_Filled m of None \<Rightarrow> 0 | Some v \<Rightarrow> v)) df_sites"

text \<open>
  \<^verbatim>\<open>merge(..., how="left", validate="many_to_one")\<close>: pandas raises \<^verbatim>\<open>MergeError\<close> when the keys
  of the right table are not unique.
\<close>

definition merge_many_to_one ::
  "('a \<Rightarrow> 'k) \<Rightarrow> ('b \<Rightarrow> 'k) \<Rightarrow> 'a list \<Rightarrow> 'b list \<Rightarrow> py_error + ('a \<times> 'b option) list" where
  "merge_many_to_one kl kr left right =
     (if distinct (map kr right) then Inr (merge_left kl kr left right)
      else Inl (MergeError ''Merge keys are not unique in right dataset; not a many-to-one merge''))"

text \<open>
  \<^verbatim>\<open>groupby([region, "Site-Type", "Customer Segment", "Interested Party"], dropna=False)\<close>
  followed by \<^verbatim>\<open>agg(nunique of Index_ID, sum of #_Stalls_Filled)\<close>: a row without metadata
  has missing categories, which form a group of their own, and a missing stall count, which
  the sum skips. Groups come in key order, missing values last.
\<close>

definition categories :: "site_meta option \<Rightarrow> string option \<times> string option \<times> string option" where
  "categories m = (case m of None \<Rightarrow> (None, None, None) | Some (i, t, s, p, v) \<Rightarrow> (t, s, p))"

definition stalls :: "site_meta option \<Rightarrow> real" where
  "stalls m = (case m of None \<Rightarrow> 0 | Some (i, t, s, p, v) \<Rightarrow> v)"

definition groupby_agg ::
  "int \<Rightarrow> ('a \<Rightarrow> 'r::linorder) \<Rightarrow> ('a \<Rightarrow> string) \<Rightarrow> ('a \<times> site_meta option) list \<Rightarrow> 'r agg_row list" where
  "groupby_agg buffer_miles region site_id rows =
     map (\<lambda>(r, t, s, p).
            (let grp = filter (\<lambda>(a, m). (region a, categories m) = (r, t, s, p)) rows
             in \<lparr>Range_Cover = buffer_miles, Region_ID = r,
                 Count_Customer_Sites = nunique (map (\<lambda>(a, m). Some (site_id a)) grp),
                 agg_Site_Type = t, agg_Customer_Segment = s, agg_Interested_Party = p,
                 Total_Stalls = sum_list (map (\<lambda>(a, m). stalls m) grp)\<rparr>))
         (sort_key (\<lambda>(r, t, s, p). (r, na_last t, na_last s, na_last p))
            (remdups (map (\<lambda>(a, m). (region a, categories m)) rows)))"


text \<open>
  County level, step 2 (lines 157--160): the county ID is the first five characters of the
  tract ID; rows are (tract ID, site ID, county ID).
\<close>

definition county_pairs :: "int \<Rightarrow> interaction_row list \<Rightarrow> (string \<times> string \<times> string) list" where
  "county_pairs buffer_miles df =
     drop_duplicates (\<lambda>(t, i, c). (c, i))
       (map (\<lambda>(t, i). (t, i, take 5 t)) (select_pairs buffer_miles df))"

definition build_county_agg_for_buffer ::
  "int \<Rightarrow> interaction_row list \<Rightarrow> site_meta_row list \<Rightarrow> py_error + string agg_row list" where
  "build_county_agg_for_buffer buffer_miles df_tract_site_interactions df_sites =
     (let county_pairs = county_pairs buffer_miles df_tract_site_interactions;
          site_meta = site_meta_of df_sites
      in case merge_many_to_one (\<lambda>(t, i, c). i) fst county_pairs site_meta of
           Inl e \<Rightarrow> Inl e
         | Inr county_pairs_enriched \<Rightarrow>
             Inr (groupby_agg buffer_miles (\<lambda>(t, i, c). c) (\<lambda>(t, i, c). i) county_pairs_enriched))"

text \<open>
  \<^verbatim>\<open>_build_msa_map\<close>: the rows with a metropolitan code, the county ID as a string padded to
  five characters, duplicate (county, code) rows dropped.
\<close>

definition build_msa_map :: "'m geocode_row list \<Rightarrow> (string \<times> 'm) list" where
  "build_msa_map df_geocodemap =
     drop_duplicates (\<lambda>p. p)
       (concat (map (\<lambda>g. case Metropolitan_Division_Code g of
                            None \<Rightarrow> []
                          | Some m \<Rightarrow> [(zfill 5 (py_str (CLEAN_County_Geoid g)), m)])
                  df_geocodemap))"

text \<open>
  Metro level, step 2 (lines 261--270): county ID by truncation, left merge with the map,
  rows without a metro name dropped, then one row per (metro, site). Rows are
  ((tract ID, site ID, county ID), metro name).
\<close>

definition msa_county_pairs :: "int \<Rightarrow> interaction_row list \<Rightarrow> (string \<times> string \<times> string) list" where
  "msa_county_pairs buffer_miles df =
     map (\<lambda>(t, i). (t, i, zfill 5 (take 5 t))) (select_pairs buffer_miles df)"

definition msa_pairs ::
  "int \<Rightarrow> interaction_row list \<Rightarrow> (string \<times> 'm) list \<Rightarrow> ((string \<times> string \<times> string) \<times> 'm) list" where
  "msa_pairs buffer_miles df msa_map =
     drop_duplicates (\<lambda>((t, i, c), n). (n, i))
       (concat (map (\<lambda>(a, m). case m of None \<Rightarrow> [] | Some (c, n) \<Rightarrow> [(a, n)])
                  (merge_left (\<lambda>(t, i, c). c) fst (msa_county_pairs buffer_miles df) msa_map)))"

definition build_msa_agg_for_buffer ::
  "int \<Rightarrow> interaction_row list \<Rightarrow> site_meta_row list \<Rightarrow> (string \<times> 'm::linorder) list
    \<Rightarrow> py_error + 'm agg_row list" where
  "build_msa_agg_for_buffer buffer_miles df_tract_site_interactions df_sites msa_map =
     (let msa_pairs = msa_pairs buffer_miles df_tract_site_interactions msa_map;
          site_meta = site_meta_of df_sites
      in case merge_many_to_one (\<lambda>((t, i, c), n). i) fst msa_pairs site_meta of
           Inl e \<Rightarrow> Inl e
         | Inr msa_pairs_enriched \<Rightarrow>
             Inr (groupby_agg buffer_miles (\<lambda>((t, i, c), n). n) (\<lambda>((t, i, c), n). i)
                    msa_pairs_enriched))"

text \<open>A valid tract ID: eleven decimal digits.\<close>

definition valid_tract_id :: "string \<Rightarrow> bool" where
  "valid_tract_id s \<longleftrightarrow> length s = 11 \<and> list_all (\<lambda>c. c \<in> set ''0123456789'') s"


section \<open>Example inputs\<close>

text \<open>
  A one-dimensional geometry engine for concrete runs: a tract is a closed interval of the
  line, a site a point, its buffer the interval around it; intervals intersect when they
  overlap or touch.
\<close>

definition line_engine :: "(real, real \<times> real, real \<times> real) geo_engine" where
  "line_engine =
     \<lparr>buffer = (\<lambda>p d. (p - d, p + d)),
      intersects = (\<lambda>g b. fst g \<le> snd b \<and> fst b \<le> snd g),
      geom_type = (\<lambda>g. ''Polygon'')\<rparr>"

definition ex_sites :: "real site_row list" where
  "ex_sites = [\<lparr>Index_ID = Some 1, point = 1 / 2\<rparr>, \<lparr>Index_ID = Some 2, point = 5 / 2\<rparr>]"

definition ex_tracts :: "(real \<times> real) tract_row list" where
  "ex_tracts =
     [\<lparr>GEOID = ''01001020100'', geometry = (0, 1)\<rparr>,
      \<lparr>GEOID = ''01001020200'', geometry = (2, 3)\<rparr>]"

text \<open>
  Input files over the line: longitude is the coordinate, the projections change nothing,
  an interval is empty when its bounds are reversed. The shapefile has the two tracts and a
  row without geometry. The site files hold: the two sites above and a row without
  latitude; one site in the gap between the tracts, half a unit from each; one site 7
  units beyond the second tract; one site a million units away.
\<close>

definition line_layers :: "(real, real \<times> real) layer_engine" where
  "line_layers =
     \<lparr>project_site = (\<lambda>x y. x), project_tract = (\<lambda>c g. g), is_empty = (\<lambda>g. snd g < fst g)\<rparr>"

definition ex_shp :: "(real \<times> real) tract_shp" where
  "ex_shp =
     \<lparr>tract_columns = [''GEOID'', ''geometry''], crs = Some ''EPSG:4269'',
      tract_records =
        [\<lparr>shp_GEOID = ''01001020100'', shp_geometry = Some (0, 1)\<rparr>,
         \<lparr>shp_GEOID = ''01001020200'', shp_geometry = Some (2, 3)\<rparr>,
         \<lparr>shp_GEOID = ''01001020300'', shp_geometry = None\<rparr>]\<rparr>"

definition ex_sites_csv :: sites_csv where
  "ex_sites_csv =
     \<lparr>site_columns = [''Index_ID'', ''Latitude'', ''Longitude''],
      site_records =
        [\<lparr>csv_Index_ID = Some 1, Latitude = Some 0, Longitude = Some (1 / 2)\<rparr>,
         \<lparr>csv_Index_ID = Some 2, Latitude = Some 0, Longitude = Some (5 / 2)\<rparr>,
         \<lparr>csv_Index_ID = Some 3, Latitude = None, Longitude = Some 7\<rparr>]\<rparr>"

definition ex_gap_csv :: sites_csv where
  "ex_gap_csv =
     \<lparr>site_columns = [''Index_ID'', ''Latitude'', ''Longitude''],
      site_records = [\<lparr>csv_Index_ID = Some 3, Latitude = Some 0, Longitude = Some (3 / 2)\<rparr>]\<rparr>"

definition ex_far_csv :: sites_csv where
  "ex_far_csv =
     \<lparr>site_columns = [''Index_ID'', ''Latitude'', ''Longitude''],
      site_records = [\<lparr>csv_Index_ID = Some 4, Latitude = Some 0, Longitude = Some 10\<rparr>]\<rparr>"

definition ex_remote_csv :: sites_csv where
  "ex_remote_csv =
     \<lparr>site_columns = [''Index_ID'', ''Latitude'', ''Longitude''],
      site_records = [\<lparr>csv_Index_ID = Some 5, Latitude = Some 0, Longitude = Some 1000000\<rparr>]\<rparr>"

text \<open>
  Inputs of the aggregation: two sites of the same type near one tract at 5 miles, the
  tract ID stored once as text and once as a number without its leading zero, a tract of a
  county outside the metro map, and a row of another radius.
\<close>

definition ex_interactions :: "interaction_row list" where
  "ex_interactions =
     [\<lparr>ix_Cover_Range = Some 5, ix_Geoid = StrCell ''01001020100'', ix_Index_ID = IntCell 1\<rparr>,
      \<lparr>ix_Cover_Range = Some 5, ix_Geoid = IntCell 1001020100, ix_Index_ID = IntCell 2\<rparr>,
      \<lparr>ix_Cover_Range = Some 5, ix_Geoid = StrCell ''06037101110'', ix_Index_ID = IntCell 1\<rparr>,
      \<lparr>ix_Cover_Range = Some 1, ix_Geoid = StrCell ''01001020100'', ix_Index_ID = IntCell 1\<rparr>]"

definition ex_site_table :: "site_meta_row list" where
  "ex_site_table =
     [\<lparr>sm_Index_ID = IntCell 1, Site_Type = Some ''DC Fast'', Customer_Segment = Some ''AV'',
       Interested_Party = Some ''Uber'', Stalls_Filled = Some 10\<rparr>,
      \<lparr>sm_Index_ID = IntCell 2, Site_Type = Some ''DC Fast'', Customer_Segment = Some ''AV'',
       Interested_Party = Some ''Uber'', Stalls_Filled = Some 6\<rparr>]"

definition ex_msa_map :: "(string \<times> int) list" where
  "ex_msa_map = [(''01001'', 33860)]"

section \<open>Properties of the buffer-intersection engine\<close>


lemma drop_duplicates_set_subset: "set (drop_duplicates key xs) \<subseteq> set xs"
  by (induction key xs rule: drop_duplicates.induct) auto

lemma drop_duplicates_keys: "key ` set (drop_duplicates key xs) = key ` set xs"
  by (induction key xs rule: drop_duplicates.induct) (auto 4 4)

lemma drop_duplicates_distinct: "distinct (map key (drop_duplicates key xs))"
proof (induction key xs rule: drop_duplicates.induct)
  case (1 key)
  then show ?case by simp
next
  case (2 key x xs)
  have "key x \<notin> key ` set (drop_duplicates key (filter (\<lambda>y. key y \<noteq> key x) xs))"
    using drop_duplicates_set_subset [of key "filter (\<lambda>y. key y \<noteq> key x) xs"] by auto
  with 2 show ?case by simp
qed

lemma nunique_card: "nunique xs = card {v. Some v \<in> set xs}"
proof -
  have "set (concat (map (\<lambda>x. case x of None \<Rightarrow> [] | Some v \<Rightarrow> [v]) xs)) = {v. Some v \<in> set xs}"
    by (auto split: option.splits)
  then show ?thesis
    by (simp add: nunique_def length_remdups_card_conv)
qed

lemma filter_key_map:
  "distinct keys \<Longrightarrow> k \<in> set keys \<Longrightarrow>
   filter (\<lambda>r. fst r = k) (map (\<lambda>k. (k, f k)) keys) = [(k, f k)]"
  by (induction keys) (auto simp: filter_empty_conv)

lemma concat_map_single:
  "(\<And>x. x \<in> set xs \<Longrightarrow> g x = [h x]) \<Longrightarrow> concat (map g xs) = map h xs"
  by (induction xs) auto

lemma merge_left_keyed:
  assumes "distinct keys" and "kl ` set left \<subseteq> set keys"
  shows "merge_left kl fst left (map (\<lambda>k. (k, f k)) keys) =
         map (\<lambda>l. (l, Some (kl l, f (kl l)))) left"
  unfolding merge_left_def
proof (rule concat_map_single)
  fix l assume "l \<in> set left"
  with assms show "(case filter (\<lambda>r. fst r = kl l) (map (\<lambda>k. (k, f k)) keys) of
            [] \<Rightarrow> [(l, None)] | ms \<Rightarrow> map (\<lambda>r. (l, Some r)) ms) = [(l, Some (kl l, f (kl l)))]"
    by (simp add: filter_key_map image_subset_iff)
qed

lemma pairs_tbl_eq:
  "fst (intersect_pairs_with_count eng sites tracts miles) =
   map (\<lambda>(c, g, i, ty).
          \<lparr>Cover_Range = c, Geoid = g, Site_ID = i, Geometry = ty,
           Count_Tract_Interact_Site_Range =
             Some (nunique (map (\<lambda>(c, g, i, ty). i)
                     (filter (\<lambda>(c', g', i, ty). (c', g') = (c, g))
                        (pairs_for_radius eng sites tracts miles))))\<rparr>)
       (pairs_for_radius eng sites tracts miles)"
proof -
  let ?pairs = "pairs_for_radius eng sites tracts miles"
  let ?kl = "\<lambda>(c, g, i, ty). (c, g)"
  let ?f = "\<lambda>k. nunique (map (\<lambda>(c, g, i, ty). i) (filter (\<lambda>(c, g, i, ty). (c, g) = k) ?pairs))"
  let ?keys = "sort (remdups (map ?kl ?pairs))"
  have cs: "count_sites ?pairs = map (\<lambda>k. (k, ?f k)) ?keys"
    by (simp add: count_sites_def)
  have "merge_left ?kl fst ?pairs (count_sites ?pairs) = map (\<lambda>l. (l, Some (?kl l, ?f (?kl l)))) ?pairs"
    unfolding cs by (rule merge_left_keyed) auto
  then show ?thesis
    by (simp add: intersect_pairs_with_count_def Let_def case_prod_unfold)
qed


lemma pairs_for_radius_distinct:
  "distinct (map (\<lambda>(c, g, i, ty). (g, i)) (pairs_for_radius eng sites tracts miles))"
proof -
  let ?dd = "drop_duplicates (\<lambda>(t, i). (GEOID t, i))
     (sjoin (intersects eng) tracts
        (map (\<lambda>s. (Index_ID s, buffer eng (point s) (MI_TO_M * miles))) sites))"
  have "map (\<lambda>(c, g, i, ty). (g, i)) (pairs_for_radius eng sites tracts miles)
        = map (\<lambda>(t, i). (GEOID t, i)) ?dd"
    by (simp add: pairs_for_radius_def Let_def case_prod_unfold)
  then show ?thesis
    by (simp only: drop_duplicates_distinct)
qed

lemma pairs_for_radius_label:
  "p \<in> set (pairs_for_radius eng sites tracts miles) \<Longrightarrow> fst p = py_round miles"
  by (auto simp: pairs_for_radius_def Let_def)

text \<open>
  Claim C1. In the pair table of any radius pass no two rows share the (tract ID, site ID)
  pair, and the count attached to a row is the number of distinct site IDs among the rows
  with that row's (\<open>Cover_Range\<close>, \<open>Geoid\<close>) key. A missing \<open>Index_ID\<close> is not a site ID:
  \<^verbatim>\<open>nunique\<close> does not count it.
\<close>

theorem pairs_unique_and_counted:
  assumes "intersect_pairs_with_count eng sites tracts miles = (tbl, counts)"
  shows "distinct (map (\<lambda>r. (Geoid r, Site_ID r)) tbl) \<and>
         (\<forall>r \<in> set tbl. Count_Tract_Interact_Site_Range r =
            Some (card {i. \<exists>r' \<in> set tbl. Cover_Range r' = Cover_Range r \<and> Geoid r' = Geoid r
                                        \<and> Site_ID r' = Some i}))"
proof -
  let ?pairs = "pairs_for_radius eng sites tracts miles"
  let ?cnt = "\<lambda>c g. nunique (map (\<lambda>(c, g, i, ty). i)
                     (filter (\<lambda>(c', g', i, ty). (c', g') = (c, g)) ?pairs))"
  let ?row = "\<lambda>(c, g, i, ty). \<lparr>Cover_Range = c, Geoid = g, Site_ID = i, Geometry = ty,
           Count_Tract_Interact_Site_Range = Some (?cnt c g)\<rparr>"
  have tbl: "tbl = map ?row ?pairs"
    using assms pairs_tbl_eq [of eng sites tracts miles] by simp
  have "map (\<lambda>r. (Geoid r, Site_ID r)) tbl = map (\<lambda>(c, g, i, ty). (g, i)) ?pairs"
    by (simp add: tbl case_prod_unfold)
  then have d: "distinct (map (\<lambda>r. (Geoid r, Site_ID r)) tbl)"
    by (simp only: pairs_for_radius_distinct)
  have c: "Count_Tract_Interact_Site_Range r =
            Some (card {i. \<exists>r' \<in> set tbl. Cover_Range r' = Cover_Range r \<and> Geoid r' = Geoid r
                                        \<and> Site_ID r' = Some i})"
    if "r \<in> set tbl" for r
  proof -
    from that obtain c g i ty where p: "(c, g, i, ty) \<in> set ?pairs" and r: "r = ?row (c, g, i, ty)"
      unfolding tbl by auto
    have "{v. Some v \<in> set (map (\<lambda>(c, g, i, ty). i)
                     (filter (\<lambda>(c', g', i, ty). (c', g') = (c, g)) ?pairs))}
          = {i. \<exists>r' \<in> set tbl. Cover_Range r' = c \<and> Geoid r' = g \<and> Site_ID r' = Some i}"
      unfolding tbl by (auto simp: image_iff) force+
    then show ?thesis
      by (simp add: r nunique_card)
  qed
  from d c show ?thesis by blast
qed

lemma ex_pairs_one_mile:
  "pairs_for_radius line_engine ex_sites ex_tracts 1 =
     [(1, ''01001020100'', Some 1, ''Polygon''), (1, ''01001020100'', Some 2, ''Polygon''),
      (1, ''01001020200'', Some 1, ''Polygon''), (1, ''01001020200'', Some 2, ''Polygon'')]"
  by (simp add: pairs_for_radius_def sjoin_def line_engine_def ex_sites_def ex_tracts_def
      MI_TO_M_def py_round_def)

lemma ex_pairs_epsilon:
  "pairs_for_radius line_engine ex_sites ex_tracts (5 / 10000) =
     [(0, ''01001020100'', Some 1, ''Polygon''), (0, ''01001020200'', Some 2, ''Polygon'')]"
  by (simp add: pairs_for_radius_def sjoin_def line_engine_def ex_sites_def ex_tracts_def
      MI_TO_M_def py_round_def)

theorem pairs_unique_and_counted_witness:
  "distinct (map (\<lambda>r. (Geoid r, Site_ID r))
      (fst (intersect_pairs_with_count line_engine ex_sites ex_tracts 1))) \<and>
   map Count_Tract_Interact_Site_Range
      (fst (intersect_pairs_with_count line_engine ex_sites ex_tracts 1))
     = [Some 2, Some 2, Some 2, Some 2]"
proof -
  have "intersect_pairs_with_count line_engine ex_sites ex_tracts 1 =
     (fst (intersect_pairs_with_count line_engine ex_sites ex_tracts 1),
      snd (intersect_pairs_with_count line_engine ex_sites ex_tracts 1))"
    by simp
  from pairs_unique_and_counted [OF this]
  have "distinct (map (\<lambda>r. (Geoid r, Site_ID r))
      (fst (intersect_pairs_with_count line_engine ex_sites ex_tracts 1)))"
    by blast
  moreover have "map Count_Tract_Interact_Site_Range
      (fst (intersect_pairs_with_count line_engine ex_sites ex_tracts 1))
     = [Some 2, Some 2, Some 2, Some 2]"
    by (simp add: pairs_tbl_eq ex_pairs_one_mile nunique_def)
  ultimately show ?thesis by blast
qed

lemma radius_loop_eq:
  "radius_loop eng sites tracts rs (logs, acc) =
     (logs @ map Warning_no_pairs
               (filter (\<lambda>r. fst (intersect_pairs_with_count eng sites tracts r) = []) rs),
      acc @ map (\<lambda>r. fst (intersect_pairs_with_count eng sites tracts r)) rs)"
  by (induction rs arbitrary: logs acc) (simp_all add: Let_def)

lemma radius_sweep_eq:
  assumes "rs \<noteq> []"
  shows "radius_sweep eng sites tracts rs =
     (if concat (map (\<lambda>r. fst (intersect_pairs_with_count eng sites tracts r)) rs) = []
      then (map Warning_no_pairs rs @ [Error_empty_output],
            Inl (RuntimeError
              ''[tract_site_interactions] No tract-site pairs were generated (empty output).''))
      else (map Warning_no_pairs
              (filter (\<lambda>r. fst (intersect_pairs_with_count eng sites tracts r) = []) rs),
            Inr (sort_key (\<lambda>r. (Cover_Range r, Geoid r, na_last (Site_ID r)))
                   (concat (map (\<lambda>r. fst (intersect_pairs_with_count eng sites tracts r)) rs)))))"
proof (cases "concat (map (\<lambda>r. fst (intersect_pairs_with_count eng sites tracts r)) rs) = []")
  case True
  then have "filter (\<lambda>r. fst (intersect_pairs_with_count eng sites tracts r) = []) rs = rs"
    by (auto intro: filter_True)
  with True assms show ?thesis
    by (simp add: radius_sweep_def radius_loop_eq Let_def)
next
  case False
  with assms show ?thesis
    by (simp add: radius_sweep_def radius_loop_eq Let_def)
qed

lemma radii_not_Nil: "radii \<noteq> []"
  by (simp add: radii_def)

lemma run_loaded:
  assumes "load_layers prj sites_input tract_shp = (logs, Inr (sites, tracts))"
  shows "run_tract_site_interactions eng prj sites_input tract_shp =
     (if concat (map (\<lambda>r. fst (intersect_pairs_with_count eng sites tracts r)) radii) = []
      then (logs @ map Warning_no_pairs radii @ [Error_empty_output],
            Inl (RuntimeError
              ''[tract_site_interactions] No tract-site pairs were generated (empty output).''))
      else (logs @ map Warning_no_pairs
              (filter (\<lambda>r. fst (intersect_pairs_with_count eng sites tracts r) = []) radii),
            Inr (sort_key (\<lambda>r. (Cover_Range r, Geoid r, na_last (Site_ID r)))
                   (concat (map (\<lambda>r. fst (intersect_pairs_with_count eng sites tracts r)) radii)))))"
  unfolding run_tract_site_interactions_def assms radius_sweep_eq [OF radii_not_Nil]
  by simp

lemma run_not_loaded:
  assumes "load_layers prj sites_input tract_shp = (logs, Inl e)"
  shows "run_tract_site_interactions eng prj sites_input tract_shp = (logs, Inl e)"
  unfolding run_tract_site_interactions_def assms by simp

lemma load_layers_no_RuntimeError:
  "load_layers prj sites_input tract_shp = (logs, Inl e) \<Longrightarrow> e \<noteq> RuntimeError m"
  by (auto simp: load_layers_def Let_def split: option.splits if_splits)


text \<open>
  Claim C6. On layers that pass loading and validation, the run sweeps every configured
  radius: a pass without pairs adds its warning to the log and nothing else, its (empty)
  table is combined with those of the other radii, and the run fails, with the
  \<open>RuntimeError\<close> of the engine after the warnings of all radii, exactly when the combined
  table is empty; otherwise it returns the sorted combined table. The \<open>RuntimeError\<close> is
  raised in no other case: a failure of loading or validation is reported before any pass,
  with another error.
\<close>

theorem zero_pairs_policy:
  "(load_layers prj sites_input tract_shp = (logs, Inr (sites, tracts)) \<longrightarrow>
      run_tract_site_interactions eng prj sites_input tract_shp =
        (if concat (map (\<lambda>r. fst (intersect_pairs_with_count eng sites tracts r)) radii) = []
         then (logs @ map Warning_no_pairs radii @ [Error_empty_output],
               Inl (RuntimeError
                 ''[tract_site_interactions] No tract-site pairs were generated (empty output).''))
         else (logs @ map Warning_no_pairs
                 (filter (\<lambda>r. fst (intersect_pairs_with_count eng sites tracts r) = []) radii),
               Inr (sort_key (\<lambda>r. (Cover_Range r, Geoid r, na_last (Site_ID r)))
                      (concat (map (\<lambda>r. fst (intersect_pairs_with_count eng sites tracts r))
                                 radii)))))) \<and>
   ((\<exists>m. snd (run_tract_site_interactions eng prj sites_input tract_shp) = Inl (RuntimeError m)) \<longleftrightarrow>
      (\<exists>logs sites tracts.
          load_layers prj sites_input tract_shp = (logs, Inr (sites, tracts)) \<and>
          concat (map (\<lambda>r. fst (intersect_pairs_with_count eng sites tracts r)) radii) = []))"
proof (intro conjI impI)
  assume "load_layers prj sites_input tract_shp = (logs, Inr (sites, tracts))"
  then show "run_tract_site_interactions eng prj sites_input tract_shp =
        (if concat (map (\<lambda>r. fst (intersect_pairs_with_count eng sites tracts r)) radii) = []
         then (logs @ map Warning_no_pairs radii @ [Error_empty_output],
               Inl (RuntimeError
                 ''[tract_site_interactions] No tract-site pairs were generated (empty output).''))
         else (logs @ map Warning_no_pairs
                 (filter (\<lambda>r. fst (intersect_pairs_with_count eng sites tracts r) = []) radii),
               Inr (sort_key (\<lambda>r. (Cover_Range r, Geoid r, na_last (Site_ID r)))
                      (concat (map (\<lambda>r. fst (intersect_pairs_with_count eng sites tracts r))
                                 radii)))))"
    by (rule run_loaded)
next
  show "(\<exists>m. snd (run_tract_site_interactions eng prj sites_input tract_shp) = Inl (RuntimeError m)) \<longleftrightarrow>
      (\<exists>logs sites tracts.
          load_layers prj sites_input tract_shp = (logs, Inr (sites, tracts)) \<and>
          concat (map (\<lambda>r. fst (intersect_pairs_with_count eng sites tracts r)) radii) = [])"
  proof (cases "load_layers prj sites_input tract_shp")
    case (Pair l res)
    show ?thesis
    proof (cases res)
      case (Inl e)
      with Pair have ll: "load_layers prj sites_input tract_shp = (l, Inl e)"
        by simp
      from load_layers_no_RuntimeError [OF ll] have "\<And>m. e \<noteq> RuntimeError m" .
      then show ?thesis
        by (simp add: run_not_loaded [OF ll] ll)
    next
      case (Inr layers)
      obtain s t where "layers = (s, t)"
        by (cases layers)
      with Pair Inr have ll: "load_layers prj sites_input tract_shp = (l, Inr (s, t))"
        by simp
      show ?thesis
        by (simp add: run_loaded [OF ll] ll)
    qed
  qed
qed

lemma pass_empty_iff:
  "fst (intersect_pairs_with_count eng sites tracts r) = [] \<longleftrightarrow>
   pairs_for_radius eng sites tracts r = []"
  by (simp add: pairs_tbl_eq)

lemma pass_length:
  "length (fst (intersect_pairs_with_count eng sites tracts r)) =
   length (pairs_for_radius eng sites tracts r)"
  by (simp add: pairs_tbl_eq)

lemma ex_load_far:
  "load_layers line_layers (Some ex_far_csv) (Some ex_shp) =
     ([Warning_dropped_tracts 1], Inr ([\<lparr>Index_ID = Some 4, point = 10\<rparr>], ex_tracts))"
  by (simp add: load_layers_def ex_far_csv_def ex_shp_def line_layers_def ex_tracts_def)

lemma ex_load_remote:
  "load_layers line_layers (Some ex_remote_csv) (Some ex_shp) =
     ([Warning_dropped_tracts 1], Inr ([\<lparr>Index_ID = Some 5, point = 1000000\<rparr>], ex_tracts))"
  by (simp add: load_layers_def ex_remote_csv_def ex_shp_def line_layers_def ex_tracts_def)

lemma ex_far_lengths:
  "map (\<lambda>r. length (pairs_for_radius line_engine [\<lparr>Index_ID = Some 4, point = 10\<rparr>] ex_tracts r))
     radii = [0, 2, 2, 2, 2, 2, 2, 2]"
  by (simp add: radii_def pairs_for_radius_def sjoin_def line_engine_def ex_tracts_def MI_TO_M_def)

lemma ex_remote_lengths:
  "map (\<lambda>r. length (pairs_for_radius line_engine [\<lparr>Index_ID = Some 5, point = 1000000\<rparr>] ex_tracts r))
     radii = [0, 0, 0, 0, 0, 0, 0, 0]"
  by (simp add: radii_def pairs_for_radius_def sjoin_def line_engine_def ex_tracts_def MI_TO_M_def)


lemma ex_far_empty_passes:
  "filter (\<lambda>r. fst (intersect_pairs_with_count line_engine [\<lparr>Index_ID = Some 4, point = 10\<rparr>]
                      ex_tracts r) = []) radii = [5 / 10000]"
  by (simp add: pass_empty_iff radii_def pairs_for_radius_def sjoin_def line_engine_def
      ex_tracts_def MI_TO_M_def)

lemma ex_far_length:
  "length (concat (map (\<lambda>r. fst (intersect_pairs_with_count line_engine
      [\<lparr>Index_ID = Some 4, point = 10\<rparr>] ex_tracts r)) radii)) = 14"
  using ex_far_lengths
  by (simp add: length_concat comp_def pass_length)

lemma ex_remote_concat:
  "concat (map (\<lambda>r. fst (intersect_pairs_with_count line_engine
      [\<lparr>Index_ID = Some 5, point = 1000000\<rparr>] ex_tracts r)) radii) = []"
  by (simp add: pass_empty_iff radii_def pairs_for_radius_def sjoin_def line_engine_def
      ex_tracts_def MI_TO_M_def)

theorem zero_pairs_policy_witness:
  "fst (run_tract_site_interactions line_engine line_layers (Some ex_far_csv) (Some ex_shp)) =
     [Warning_dropped_tracts 1, Warning_no_pairs (5 / 10000)] \<and>
   (case snd (run_tract_site_interactions line_engine line_layers (Some ex_far_csv) (Some ex_shp))
    of Inl e \<Rightarrow> 0 | Inr out \<Rightarrow> length out) = 14 \<and>
   run_tract_site_interactions line_engine line_layers (Some ex_remote_csv) (Some ex_shp) =
     ([Warning_dropped_tracts 1] @ map Warning_no_pairs radii @ [Error_empty_output],
      Inl (RuntimeError
        ''[tract_site_interactions] No tract-site pairs were generated (empty output).''))"
proof -
  let ?far = "\<lambda>r. fst (intersect_pairs_with_count line_engine
      [\<lparr>Index_ID = Some 4, point = 10\<rparr>] ex_tracts r)"
  have n: "concat (map ?far radii) \<noteq> []"
  proof
    assume "concat (map ?far radii) = []"
    then have "length (concat (map ?far radii)) = 0"
      by (simp only: list.size)
    with ex_far_length show False
      by simp
  qed
  from zero_pairs_policy [where eng = line_engine and prj = line_layers
      and sites_input = "Some ex_far_csv" and tract_shp = "Some ex_shp"
      and logs = "[Warning_dropped_tracts 1]" and sites = "[\<lparr>Index_ID = Some 4, point = 10\<rparr>]"
      and tracts = ex_tracts] ex_load_far n
  have far: "run_tract_site_interactions line_engine line_layers (Some ex_far_csv) (Some ex_shp) =
     ([Warning_dropped_tracts 1] @ map Warning_no_pairs (filter (\<lambda>r. ?far r = []) radii),
      Inr (sort_key (\<lambda>r. (Cover_Range r, Geoid r, na_last (Site_ID r)))
             (concat (map ?far radii))))"
    by presburger
  from zero_pairs_policy [where eng = line_engine and prj = line_layers
      and sites_input = "Some ex_remote_csv" and tract_shp = "Some ex_shp"
      and logs = "[Warning_dropped_tracts 1]" and sites = "[\<lparr>Index_ID = Some 5, point = 1000000\<rparr>]"
      and tracts = ex_tracts] ex_load_remote ex_remote_concat
  have remote: "run_tract_site_interactions line_engine line_layers (Some ex_remote_csv) (Some ex_shp) =
     ([Warning_dropped_tracts 1] @ map Warning_no_pairs radii @ [Error_empty_output],
      Inl (RuntimeError
        ''[tract_site_interactions] No tract-site pairs were generated (empty output).''))"
    by presburger
  have "fst (run_tract_site_interactions line_engine line_layers (Some ex_far_csv) (Some ex_shp)) =
     [Warning_dropped_tracts 1, Warning_no_pairs (5 / 10000)]"
    unfolding far ex_far_empty_passes by simp
  moreover have "(case snd (run_tract_site_interactions line_engine line_layers (Some ex_far_csv)
      (Some ex_shp)) of Inl e \<Rightarrow> 0 | Inr out \<Rightarrow> length out) = 14"
    unfolding far using ex_far_length by simp
  ultimately show ?thesis
    using remote by blast
qed

lemma sjoin_set:
  "set (sjoin pred left right) =
     {(t, fst r) |t r. t \<in> set left \<and> r \<in> set right \<and> pred (geometry t) (snd r)}"
proof (rule set_eqI)
  fix x :: "'a tract_row \<times> int option"
  obtain t i where x: "x = (t, i)"
    by (cases x)
  have "(t, i) \<in> set (sjoin pred left right) \<longleftrightarrow>
        t \<in> set left \<and> (\<exists>r \<in> set right. pred (geometry t) (snd r) \<and> i = fst r)"
    by (auto simp: sjoin_def)
  also have "\<dots> \<longleftrightarrow> (t, i) \<in> {(t, fst r) |t r. t \<in> set left \<and> r \<in> set right \<and>
      pred (geometry t) (snd r)}"
    by blast
  finally show "x \<in> set (sjoin pred left right) \<longleftrightarrow>
      x \<in> {(t, fst r) |t r. t \<in> set left \<and> r \<in> set right \<and> pred (geometry t) (snd r)}"
    unfolding x .
qed

lemma pass_keys:
  "(\<lambda>row. (Geoid row, Site_ID row)) ` set (fst (intersect_pairs_with_count eng sites tracts miles)) =
     {(GEOID t, Index_ID s) |t s. t \<in> set tracts \<and> s \<in> set sites \<and>
        intersects eng (geometry t) (buffer eng (point s) (MI_TO_M * miles))}"
proof -
  let ?buf = "map (\<lambda>s. (Index_ID s, buffer eng (point s) (MI_TO_M * miles))) sites"
  let ?dd = "drop_duplicates (\<lambda>(t, i). (GEOID t, i)) (sjoin (intersects eng) tracts ?buf)"
  have "map (\<lambda>row. (Geoid row, Site_ID row)) (fst (intersect_pairs_with_count eng sites tracts miles))
        = map (\<lambda>(t, i). (GEOID t, i)) ?dd"
    by (simp add: pairs_tbl_eq pairs_for_radius_def Let_def case_prod_unfold comp_def)
  then have "(\<lambda>row. (Geoid row, Site_ID row)) `
               set (fst (intersect_pairs_with_count eng sites tracts miles))
             = (\<lambda>(t, i). (GEOID t, i)) ` set ?dd"
    by (metis set_map)
  also have "\<dots> = (\<lambda>(t, i). (GEOID t, i)) ` set (sjoin (intersects eng) tracts ?buf)"
    by (rule drop_duplicates_keys)
  also have "\<dots> = {(GEOID t, Index_ID s) |t s. t \<in> set tracts \<and> s \<in> set sites \<and>
        intersects eng (geometry t) (buffer eng (point s) (MI_TO_M * miles))}"
    unfolding sjoin_set by (auto simp: image_iff) force
  finally show ?thesis .
qed

lemma pass_label:
  "row \<in> set (fst (intersect_pairs_with_count eng sites tracts miles)) \<Longrightarrow>
   Cover_Range row = py_round miles"
  using pairs_for_radius_label [of _ eng sites tracts miles]
  by (auto simp: pairs_tbl_eq)

lemma radii_labels: "map py_round radii = [0, 1, 2, 3, 5, 25, 75, 100]"
  by (simp add: radii_def py_round_def)

lemma radii_label_zero: "r \<in> set radii \<Longrightarrow> py_round r = 0 \<Longrightarrow> r = 5 / 10000"
  by (auto simp: radii_def py_round_def)

lemma run_rows:
  assumes "load_layers prj sites_input tract_shp = (logs, Inr (sites, tracts))"
    and "run_tract_site_interactions eng prj sites_input tract_shp = (logs', Inr out)"
  shows "set out = (\<Union>r \<in> set radii. set (fst (intersect_pairs_with_count eng sites tracts r)))"
proof -
  from assms(2) have "out = sort_key (\<lambda>r. (Cover_Range r, Geoid r, na_last (Site_ID r)))
      (concat (map (\<lambda>r. fst (intersect_pairs_with_count eng sites tracts r)) radii))"
    unfolding run_loaded [OF assms(1)] by (simp split: if_splits)
  then show ?thesis by simp
qed


text \<open>
  Claim C5. The pairs of a pass are the (tract, site) pairs whose tract geometry intersects
  the buffer of the site point at the distance \<open>MI_TO_M * miles\<close>, and every row of the pass
  is labelled with the radius rounded to the nearest integer. In the output of a run the
  rows labelled 0 are those of the first configured radius, 0.0005 miles: the buffer
  distance of the 0-mile tier is the strictly positive 0.80467 metres, not zero. Every row
  of the output comes from the pass of a configured radius and carries its rounded value,
  so the labels are among 0, 1, 2, 3, 5, 25, 75, 100.
\<close>

theorem epsilon_tier_and_labels:
  "(\<lambda>row. (Geoid row, Site_ID row)) ` set (fst (intersect_pairs_with_count eng sites tracts miles)) =
     {(GEOID t, Index_ID s) |t s. t \<in> set tracts \<and> s \<in> set sites \<and>
        intersects eng (geometry t) (buffer eng (point s) (MI_TO_M * miles))} \<and>
   (\<forall>row \<in> set (fst (intersect_pairs_with_count eng sites tracts miles)).
      Cover_Range row = py_round miles) \<and>
   (load_layers prj sites_input tract_shp = (logs, Inr (sites, tracts)) \<and>
    run_tract_site_interactions eng prj sites_input tract_shp = (logs', Inr out) \<longrightarrow>
      (\<lambda>row. (Geoid row, Site_ID row)) ` {row \<in> set out. Cover_Range row = 0} =
         {(GEOID t, Index_ID s) |t s. t \<in> set tracts \<and> s \<in> set sites \<and>
            intersects eng (geometry t) (buffer eng (point s) (80467 / 100000))} \<and>
      (\<forall>row \<in> set out. \<exists>r \<in> set radii.
          row \<in> set (fst (intersect_pairs_with_count eng sites tracts r)) \<and>
          Cover_Range row = py_round r) \<and>
      Cover_Range ` set out \<subseteq> {0, 1, 2, 3, 5, 25, 75, 100}) \<and>
   map py_round radii = [0, 1, 2, 3, 5, 25, 75, 100] \<and>
   MI_TO_M * (radii ! 0) = 80467 / 100000"
proof -
  let ?pass = "\<lambda>r. fst (intersect_pairs_with_count eng sites tracts r)"
  have run: "(\<lambda>row. (Geoid row, Site_ID row)) ` {row \<in> set out. Cover_Range row = 0} =
         {(GEOID t, Index_ID s) |t s. t \<in> set tracts \<and> s \<in> set sites \<and>
            intersects eng (geometry t) (buffer eng (point s) (80467 / 100000))} \<and>
      (\<forall>row \<in> set out. \<exists>r \<in> set radii. row \<in> set (?pass r) \<and> Cover_Range row = py_round r) \<and>
      Cover_Range ` set out \<subseteq> {0, 1, 2, 3, 5, 25, 75, 100}"
    if l: "load_layers prj sites_input tract_shp = (logs, Inr (sites, tracts))"
      and r: "run_tract_site_interactions eng prj sites_input tract_shp = (logs', Inr out)"
  proof -
    have out: "set out = (\<Union>r \<in> set radii. set (?pass r))"
      by (rule run_rows [OF l r])
    have src: "\<exists>r \<in> set radii. row \<in> set (?pass r) \<and> Cover_Range row = py_round r"
      if "row \<in> set out" for row
      using that pass_label unfolding out by blast
    have "py_round r \<in> {0, 1, 2, 3, 5, 25, 75, 100}" if "r \<in> set radii" for r
    proof -
      from that have "py_round r \<in> set (map py_round radii)"
        by simp
      then show ?thesis
        unfolding radii_labels by simp
    qed
    with src have lab: "Cover_Range ` set out \<subseteq> {0, 1, 2, 3, 5, 25, 75, 100}"
      by force
    have e: "5 / 10000 \<in> set radii" and z: "py_round (5 / 10000) = 0"
      by (simp_all add: radii_def py_round_def)
    have s0: "{row \<in> set out. Cover_Range row = 0} = set (?pass (5 / 10000))"
    proof (rule set_eqI)
      fix row
      show "row \<in> {row \<in> set out. Cover_Range row = 0} \<longleftrightarrow> row \<in> set (?pass (5 / 10000))"
      proof
        assume "row \<in> {row \<in> set out. Cover_Range row = 0}"
        then have "row \<in> set out" and c: "Cover_Range row = 0"
          by simp_all
        from src [OF this(1)] obtain r where rr: "r \<in> set radii" "row \<in> set (?pass r)"
          "Cover_Range row = py_round r"
          by blast
        from c rr(3) have "py_round r = 0"
          by simp
        with rr(1) have "r = 5 / 10000"
          by (rule radii_label_zero)
        with rr show "row \<in> set (?pass (5 / 10000))"
          by simp
      next
        assume a: "row \<in> set (?pass (5 / 10000))"
        with e have "row \<in> set out"
          unfolding out by blast
        moreover from a have "Cover_Range row = 0"
          using pass_label [of row eng sites tracts "5 / 10000"] z by simp
        ultimately show "row \<in> {row \<in> set out. Cover_Range row = 0}"
          by simp
      qed
    qed
    have d: "MI_TO_M * (5 / 10000) = 80467 / 100000"
      by (simp add: MI_TO_M_def)
    have "(\<lambda>row. (Geoid row, Site_ID row)) ` {row \<in> set out. Cover_Range row = 0} =
         {(GEOID t, Index_ID s) |t s. t \<in> set tracts \<and> s \<in> set sites \<and>
            intersects eng (geometry t) (buffer eng (point s) (80467 / 100000))}"
      unfolding s0 pass_keys d by (rule refl)
    moreover from src have "\<forall>row \<in> set out. \<exists>r \<in> set radii.
        row \<in> set (?pass r) \<and> Cover_Range row = py_round r"
      by (rule ballI)
    ultimately show ?thesis
      using lab by (intro conjI)
  qed
  have A: "(\<lambda>row. (Geoid row, Site_ID row)) ` set (?pass miles) =
     {(GEOID t, Index_ID s) |t s. t \<in> set tracts \<and> s \<in> set sites \<and>
        intersects eng (geometry t) (buffer eng (point s) (MI_TO_M * miles))}"
    by (rule pass_keys)
  have B: "\<forall>row \<in> set (?pass miles). Cover_Range row = py_round miles"
    by (rule ballI) (rule pass_label)
  have C: "load_layers prj sites_input tract_shp = (logs, Inr (sites, tracts)) \<and>
    run_tract_site_interactions eng prj sites_input tract_shp = (logs', Inr out) \<longrightarrow>
      (\<lambda>row. (Geoid row, Site_ID row)) ` {row \<in> set out. Cover_Range row = 0} =
         {(GEOID t, Index_ID s) |t s. t \<in> set tracts \<and> s \<in> set sites \<and>
            intersects eng (geometry t) (buffer eng (point s) (80467 / 100000))} \<and>
      (\<forall>row \<in> set out. \<exists>r \<in> set radii. row \<in> set (?pass r) \<and> Cover_Range row = py_round r) \<and>
      Cover_Range ` set out \<subseteq> {0, 1, 2, 3, 5, 25, 75, 100}"
  proof
    assume a: "load_layers prj sites_input tract_shp = (logs, Inr (sites, tracts)) \<and>
      run_tract_site_interactions eng prj sites_input tract_shp = (logs', Inr out)"
    show "(\<lambda>row. (Geoid row, Site_ID row)) ` {row \<in> set out. Cover_Range row = 0} =
         {(GEOID t, Index_ID s) |t s. t \<in> set tracts \<and> s \<in> set sites \<and>
            intersects eng (geometry t) (buffer eng (point s) (80467 / 100000))} \<and>
      (\<forall>row \<in> set out. \<exists>r \<in> set radii. row \<in> set (?pass r) \<and> Cover_Range row = py_round r) \<and>
      Cover_Range ` set out \<subseteq> {0, 1, 2, 3, 5, 25, 75, 100}"
      by (rule run [OF conjunct1 [OF a] conjunct2 [OF a]])
  qed
  have E: "MI_TO_M * (radii ! 0) = 80467 / 100000"
    by (simp add: MI_TO_M_def radii_def)
  show ?thesis
    by (rule conjI [OF A conjI [OF B conjI [OF C conjI [OF radii_labels E]]]])
qed

lemma ex_load_gap:
  "load_layers line_layers (Some ex_gap_csv) (Some ex_shp) =
     ([Warning_dropped_tracts 1], Inr ([\<lparr>Index_ID = Some 3, point = 3 / 2\<rparr>], ex_tracts))"
  by (simp add: load_layers_def ex_gap_csv_def ex_shp_def line_layers_def ex_tracts_def
      del: not_None_eq)

lemma ex_gap_lengths:
  "map (\<lambda>r. length (pairs_for_radius line_engine [\<lparr>Index_ID = Some 3, point = 3 / 2\<rparr>] ex_tracts r))
     radii = [2, 2, 2, 2, 2, 2, 2, 2]"
  by (simp add: radii_def pairs_for_radius_def sjoin_def line_engine_def ex_tracts_def MI_TO_M_def)

lemma ex_gap_run:
  "run_tract_site_interactions line_engine line_layers (Some ex_gap_csv) (Some ex_shp) =
     ([Warning_dropped_tracts 1],
      Inr (sort_key (\<lambda>r. (Cover_Range r, Geoid r, na_last (Site_ID r)))
             (concat (map (\<lambda>r. fst (intersect_pairs_with_count line_engine
                [\<lparr>Index_ID = Some 3, point = 3 / 2\<rparr>] ex_tracts r)) radii))))"
proof -
  let ?gap = "\<lambda>r. fst (intersect_pairs_with_count line_engine
      [\<lparr>Index_ID = Some 3, point = 3 / 2\<rparr>] ex_tracts r)"
  have l: "map (\<lambda>r. length (?gap r)) radii = [2, 2, 2, 2, 2, 2, 2, 2]"
    using ex_gap_lengths by (simp add: pass_length)
  have "\<forall>n \<in> set (map (\<lambda>r. length (?gap r)) radii). n = 2"
    unfolding l by simp
  then have ne: "?gap r \<noteq> []" if "r \<in> set radii" for r
    using that by fastforce
  then have "filter (\<lambda>r. ?gap r = []) radii = []"
    by (simp add: filter_empty_conv)
  moreover have "concat (map ?gap radii) \<noteq> []"
    using ne radii_not_Nil by (cases radii) auto
  ultimately show ?thesis
    by (simp add: run_loaded [OF ex_load_gap])
qed

theorem epsilon_tier_and_labels_witness:
  "(\<lambda>row. (Geoid row, Site_ID row)) `
     {row \<in> set (case snd (run_tract_site_interactions line_engine line_layers (Some ex_gap_csv)
                              (Some ex_shp)) of Inl e \<Rightarrow> [] | Inr out \<Rightarrow> out).
      Cover_Range row = 0} =
     {(''01001020100'', Some 3), (''01001020200'', Some 3)} \<and>
   \<not> intersects line_engine (0, 1) (buffer line_engine (3 / 2) 0) \<and>
   \<not> intersects line_engine (2, 3) (buffer line_engine (3 / 2) 0)"
proof -
  let ?out = "sort_key (\<lambda>r. (Cover_Range r, Geoid r, na_last (Site_ID r)))
             (concat (map (\<lambda>r. fst (intersect_pairs_with_count line_engine
                [\<lparr>Index_ID = Some 3, point = 3 / 2\<rparr>] ex_tracts r)) radii))"
  from epsilon_tier_and_labels [where eng = line_engine and prj = line_layers
      and sites_input = "Some ex_gap_csv" and tract_shp = "Some ex_shp"
      and logs = "[Warning_dropped_tracts 1]" and logs' = "[Warning_dropped_tracts 1]"
      and sites = "[\<lparr>Index_ID = Some 3, point = 3 / 2\<rparr>]" and tracts = ex_tracts
      and out = ?out] ex_load_gap ex_gap_run
  have "(\<lambda>row. (Geoid row, Site_ID row)) ` {row \<in> set ?out. Cover_Range row = 0} =
         {(GEOID t, Index_ID s) |t s. t \<in> set ex_tracts \<and>
            s \<in> set [\<lparr>Index_ID = Some 3, point = 3 / 2\<rparr>] \<and>
            intersects line_engine (geometry t) (buffer line_engine (point s) (80467 / 100000))}"
    by blast
  also have "\<dots> = {(''01001020100'', Some 3), (''01001020200'', Some 3)}"
    apply (auto simp: ex_tracts_def line_engine_def)
     apply (rule exI [of _ "\<lparr>GEOID = ''01001020100'', geometry = (0, 1)\<rparr>"])
     apply simp
    apply (rule exI [of _ "\<lparr>GEOID = ''01001020200'', geometry = (2, 3)\<rparr>"])
    apply simp
    done
  finally have "(\<lambda>row. (Geoid row, Site_ID row)) ` {row \<in> set ?out. Cover_Range row = 0} =
     {(''01001020100'', Some 3), (''01001020200'', Some 3)}" .
  moreover have "\<not> intersects line_engine (0, 1) (buffer line_engine (3 / 2) 0)"
    "\<not> intersects line_engine (2, 3) (buffer line_engine (3 / 2) 0)"
    by (simp_all add: line_engine_def)
  ultimately show ?thesis
    by (simp only: ex_gap_run snd_conv sum.case simp_thms)
qed

lemma find_filter_conj: "find P (filter Q xs) = find (\<lambda>y. Q y \<and> P y) xs"
  by (induction xs) auto

lemma drop_duplicates_set_find:
  "set (drop_duplicates key xs) = {x. \<exists>k. find (\<lambda>y. key y = k) xs = Some x}"
proof (induction key xs rule: drop_duplicates.induct)
  case (1 key)
  then show ?case by simp
next
  case (2 key x xs)
  have f: "find (\<lambda>y. key y = k) (filter (\<lambda>y. key y \<noteq> key x) xs) =
        (if k = key x then None else find (\<lambda>y. key y = k) xs)" for k
  proof (cases "k = key x")
    case True
    then show ?thesis by (simp add: find_filter_conj find_None_iff)
  next
    case False
    then have "(\<lambda>y. key y \<noteq> key x \<and> key y = k) = (\<lambda>y. key y = k)"
      by auto
    with False show ?thesis by (simp add: find_filter_conj)
  qed
  have "set (drop_duplicates key (x # xs)) =
      insert x {y. \<exists>k. k \<noteq> key x \<and> find (\<lambda>z. key z = k) xs = Some y}"
    unfolding drop_duplicates.simps list.set "2.IH" f
    by (auto split: if_splits)
  also have "\<dots> = {y. \<exists>k. find (\<lambda>z. key z = k) (x # xs) = Some y}"
  proof (rule set_eqI)
    fix y
    show "y \<in> insert x {y. \<exists>k. k \<noteq> key x \<and> find (\<lambda>z. key z = k) xs = Some y}
      \<longleftrightarrow> y \<in> {y. \<exists>k. find (\<lambda>z. key z = k) (x # xs) = Some y}"
    proof
      assume "y \<in> insert x {y. \<exists>k. k \<noteq> key x \<and> find (\<lambda>z. key z = k) xs = Some y}"
      then consider "y = x" | k where "k \<noteq> key x" "find (\<lambda>z. key z = k) xs = Some y"
        by blast
      then show "y \<in> {y. \<exists>k. find (\<lambda>z. key z = k) (x # xs) = Some y}"
      proof cases
        case 1
        then have "find (\<lambda>z. key z = key x) (x # xs) = Some y" by simp
        then show ?thesis by blast
      next
        case 2
        then have "find (\<lambda>z. key z = k) (x # xs) = Some y" by simp
        then show ?thesis by blast
      qed
    next
      assume "y \<in> {y. \<exists>k. find (\<lambda>z. key z = k) (x # xs) = Some y}"
      then obtain k where k: "find (\<lambda>z. key z = k) (x # xs) = Some y"
        by blast
      show "y \<in> insert x {y. \<exists>k. k \<noteq> key x \<and> find (\<lambda>z. key z = k) xs = Some y}"
      proof (cases "key x = k")
        case True
        with k show ?thesis by simp
      next
        case False
        with k have "find (\<lambda>z. key z = k) xs = Some y" by simp
        moreover from False have "k \<noteq> key x" by blast
        ultimately have "\<exists>k. k \<noteq> key x \<and> find (\<lambda>z. key z = k) xs = Some y"
          by (intro exI [of _ k] conjI)
        then show ?thesis by simp
      qed
    qed
  qed
  finally show ?case .
qed

lemma find_app:
  "find P (xs @ ys) = (case find P xs of None \<Rightarrow> find P ys | Some x \<Rightarrow> Some x)"
  by (induction xs) auto

lemma find_concat_blocks:
  "find P (concat (map blk ts)) =
     (case find (\<lambda>t. find P (blk t) \<noteq> None) ts of
        None \<Rightarrow> None | Some t \<Rightarrow> find P (blk t))"
  by (induction ts) (auto simp: find_app split: option.splits)

lemma find_sjoin_block:
  "find (\<lambda>y. (case y of (t', i') \<Rightarrow> (GEOID t', i')) = (g, i))
        (map (\<lambda>r. (t, fst r)) (filter (\<lambda>r. pred (geometry t) (snd r)) buf)) =
     (if GEOID t = g \<and> (\<exists>r \<in> set buf. fst r = i \<and> pred (geometry t) (snd r))
      then Some (t, i) else None)"
  by (induction buf) auto

lemma find_sjoin:
  "find (\<lambda>y. (case y of (t', i') \<Rightarrow> (GEOID t', i')) = (g, i)) (sjoin pred tracts buf) =
     map_option (\<lambda>t. (t, i))
       (find (\<lambda>t. GEOID t = g \<and> (\<exists>r \<in> set buf. fst r = i \<and> pred (geometry t) (snd r))) tracts)"
  unfolding sjoin_def find_concat_blocks find_sjoin_block
  by (induction tracts) auto

lemma pairs_for_radius_set_cong:
  assumes "set sites' = set sites"
  shows "set (pairs_for_radius eng sites' tracts miles) = set (pairs_for_radius eng sites tracts miles)"
proof -
  let ?buf = "\<lambda>ss. map (\<lambda>s. (Index_ID s, buffer eng (point s) (MI_TO_M * miles))) ss"
  have "set (?buf sites') = set (?buf sites)"
    using assms by simp
  then have "find (\<lambda>y. (case y of (t', i') \<Rightarrow> (GEOID t', i')) = k) (sjoin (intersects eng) tracts (?buf sites'))
      = find (\<lambda>y. (case y of (t', i') \<Rightarrow> (GEOID t', i')) = k) (sjoin (intersects eng) tracts (?buf sites))" for k
    by (cases k) (simp only: find_sjoin)
  then have "set (drop_duplicates (\<lambda>(t, i). (GEOID t, i)) (sjoin (intersects eng) tracts (?buf sites')))
      = set (drop_duplicates (\<lambda>(t, i). (GEOID t, i)) (sjoin (intersects eng) tracts (?buf sites)))"
    by (simp only: drop_duplicates_set_find)
  then show ?thesis
    by (simp add: pairs_for_radius_def Let_def)
qed

lemma pairs_tbl_set:
  "set (fst (intersect_pairs_with_count eng sites tracts miles)) =
   (\<lambda>(c, g, i, ty).
          \<lparr>Cover_Range = c, Geoid = g, Site_ID = i, Geometry = ty,
           Count_Tract_Interact_Site_Range =
             Some (card {v. \<exists>ty'. (c, g, Some v, ty') \<in> set (pairs_for_radius eng sites tracts miles)})\<rparr>)
     ` set (pairs_for_radius eng sites tracts miles)"
proof -
  have "{v. Some v \<in> set (map (\<lambda>(c, g, i, ty). i)
                     (filter (\<lambda>(c', g', i, ty). (c', g') = (c, g)) ps))}
        = {v. \<exists>ty'. (c, g, Some v, ty') \<in> set ps}" for c g and ps :: "(int \<times> string \<times> int option \<times> string) list"
    by (auto simp: image_iff)
  then show ?thesis
    by (simp add: pairs_tbl_eq nunique_card case_prod_unfold)
qed

text \<open>
  Claim C9. The pass is a function of its inputs, and the set of rows it produces does not
  depend on row order where the geometry engine is free to choose it: two runs on the same
  tract layer and on site tables with the same rows, in any order (the spatial index may
  enumerate the buffers in any order), produce the same set of (radius label, tract ID,
  site ID, geometry kind, count) rows. Runs on identical inputs are the case
  \<open>sites' = sites\<close>.
\<close>

theorem pass_deterministic:
  assumes "set sites' = set sites"
  shows "set (fst (intersect_pairs_with_count eng sites' tracts miles)) =
         set (fst (intersect_pairs_with_count eng sites tracts miles))"
  unfolding pairs_tbl_set pairs_for_radius_set_cong [OF assms] ..

theorem pass_deterministic_witness:
  "set (fst (intersect_pairs_with_count line_engine (rev ex_sites) ex_tracts 1)) =
   set (fst (intersect_pairs_with_count line_engine ex_sites ex_tracts 1)) \<and>
   length (fst (intersect_pairs_with_count line_engine ex_sites ex_tracts 1)) = 4"
proof -
  have "set (rev ex_sites) = set ex_sites"
    by simp
  from pass_deterministic [OF this, of line_engine ex_tracts 1]
  show ?thesis
    by (simp add: pairs_tbl_eq ex_pairs_one_mile)
qed


section \<open>Properties of the aggregation engine\<close>

lemma drop_duplicates_id_set: "set (drop_duplicates (\<lambda>p. p) xs) = set xs"
  using drop_duplicates_keys [of "\<lambda>p. p" xs] by simp

lemma zfill_length: "length (zfill w s) = max w (length s)"
  by (cases s) (auto simp: zfill_def)

lemma zfill_id: "w \<le> length s \<Longrightarrow> zfill w s = s"
  by (simp add: zfill_def)

lemma select_pairs_set:
  "set (select_pairs b df) =
     (\<lambda>x. (zfill 11 (py_str (ix_Geoid x)), py_str (ix_Index_ID x))) `
       {x \<in> set df. ix_Cover_Range x = Some (of_int b)}"
  by (auto simp: select_pairs_def drop_duplicates_id_set)

lemma county_pairs_subset:
  "set (county_pairs b df) \<subseteq> (\<lambda>(t, i). (t, i, take 5 t)) ` set (select_pairs b df)"
  unfolding county_pairs_def
  using drop_duplicates_set_subset [of "\<lambda>(t, i, c). (c, i)" "map (\<lambda>(t, i). (t, i, take 5 t)) (select_pairs b df)"]
  by simp

lemma county_pairs_keys:
  "(\<lambda>(t, i, c). (c, i)) ` set (county_pairs b df) = (\<lambda>(t, i). (take 5 t, i)) ` set (select_pairs b df)"
  unfolding county_pairs_def drop_duplicates_keys
  by (auto simp: image_iff) force+

lemma msa_county_pairs_set:
  "set (msa_county_pairs b df) = (\<lambda>(t, i). (t, i, take 5 t)) ` set (select_pairs b df)"
proof -
  have "zfill 5 (take 5 t) = take 5 t" if "(t, i) \<in> set (select_pairs b df)" for t i
  proof -
    from that have "11 \<le> length t"
      by (auto simp: select_pairs_set zfill_length)
    then show ?thesis by (simp add: zfill_id)
  qed
  then show ?thesis
    by (force simp: msa_county_pairs_def image_iff)
qed

lemma groupby_agg_set:
  "set (groupby_agg b region site_id rows) =
     (\<lambda>(r, t, s, p).
        \<lparr>Range_Cover = b, Region_ID = r,
         Count_Customer_Sites =
           card {site_id a |a m. (a, m) \<in> set rows \<and> region a = r \<and> categories m = (t, s, p)},
         agg_Site_Type = t, agg_Customer_Segment = s, agg_Interested_Party = p,
         Total_Stalls = sum_list (map (\<lambda>(a, m). stalls m)
            (filter (\<lambda>(a, m). (region a, categories m) = (r, t, s, p)) rows))\<rparr>)
     ` (\<lambda>(a, m). (region a, categories m)) ` set rows"
proof -
  have "{v. Some v \<in> set (map (\<lambda>(a, m). Some (site_id a))
            (filter (\<lambda>(a, m). (region a, categories m) = (r, t, s, p)) rows))}
        = {site_id a |a m. (a, m) \<in> set rows \<and> region a = r \<and> categories m = (t, s, p)}"
    for r t s p
    by (auto simp: image_iff)
  then show ?thesis
    by (simp add: groupby_agg_def nunique_card Let_def case_prod_unfold)
qed

lemma groupby_agg_region:
  assumes "row \<in> set (groupby_agg b region site_id rows)"
  shows "Region_ID row \<in> region ` fst ` set rows"
proof -
  from assms obtain a m where am: "(a, m) \<in> set rows" and r: "Region_ID row = region a"
    unfolding groupby_agg_set by auto
  from am have "fst (a, m) \<in> fst ` set rows"
    by (rule imageI)
  then have "region a \<in> region ` fst ` set rows"
    by simp
  with r show ?thesis by simp
qed

lemma filter_distinct_key:
  "distinct (map kr xs) \<Longrightarrow>
   filter (\<lambda>r. kr r = k) xs = (case find (\<lambda>r. kr r = k) xs of None \<Rightarrow> [] | Some x \<Rightarrow> [x])"
proof (induction xs)
  case Nil
  then show ?case by simp
next
  case (Cons a xs)
  show ?case
  proof (cases "kr a = k")
    case True
    with Cons.prems have "k \<notin> kr ` set xs"
      by simp
    then have "\<forall>x \<in> set xs. kr x \<noteq> k"
      by (metis imageI)
    then have "filter (\<lambda>r. kr r = k) xs = []"
      by (simp add: filter_empty_conv)
    with True show ?thesis by simp
  next
    case False
    with Cons show ?thesis by simp
  qed
qed

lemma merge_left_m1:
  assumes "distinct (map kr right)"
  shows "merge_left kl kr left right = map (\<lambda>l. (l, find (\<lambda>r. kr r = kl l) right)) left"
  unfolding merge_left_def
proof (rule concat_map_single)
  fix l
  show "(case filter (\<lambda>r. kr r = kl l) right of [] \<Rightarrow> [(l, None)]
          | ms \<Rightarrow> map (\<lambda>r. (l, Some r)) ms) = [(l, find (\<lambda>r. kr r = kl l) right)]"
    by (simp add: filter_distinct_key [OF assms] split: option.splits)
qed

lemma merge_many_to_one_Inr:
  "merge_many_to_one kl kr left right = Inr rows \<Longrightarrow>
   distinct (map kr right) \<and> rows = map (\<lambda>l. (l, find (\<lambda>r. kr r = kl l) right)) left"
  by (auto simp: merge_many_to_one_def merge_left_m1 split: if_splits)

lemma agg_Inr:
  assumes "(case merge_many_to_one kl fst left meta of Inl e \<Rightarrow> Inl e
            | Inr rows \<Rightarrow> Inr (groupby_agg b reg idf rows)) = Inr out"
  shows "distinct (map fst meta)"
    and "out = groupby_agg b reg idf (map (\<lambda>l. (l, find (\<lambda>r. fst r = kl l) meta)) left)"
  using assms merge_many_to_one_Inr [of kl fst left meta]
  by (auto split: sum.splits)

lemma agg_region:
  assumes "(case merge_many_to_one kl fst left meta of Inl e \<Rightarrow> Inl e
            | Inr rows \<Rightarrow> Inr (groupby_agg b reg idf rows)) = Inr out"
    and "row \<in> set out"
  shows "Region_ID row \<in> reg ` set left"
proof -
  have "fst ` set (map (\<lambda>l. (l, find (\<lambda>r. fst r = kl l) meta)) left) = set left"
    by (force simp: image_iff)
  then show ?thesis
    using groupby_agg_region [of row b reg idf "map (\<lambda>l. (l, find (\<lambda>r. fst r = kl l) meta)) left"]
      assms(2) agg_Inr(2) [OF assms(1)]
    by simp
qed

lemma str_nat_small: "n < 10 \<Longrightarrow> str_nat n = [''0123456789'' ! n]"
  by (subst str_nat.simps) simp

lemma str_nat_large:
  "10 \<le> n \<Longrightarrow> str_nat n = str_nat (n div 10) @ [''0123456789'' ! (n mod 10)]"
  by (subst str_nat.simps) simp

lemma ex_select_pairs:
  "select_pairs 5 ex_interactions =
     [(''01001020100'', ''1''), (''01001020100'', ''2''), (''06037101110'', ''1'')]"
  by (simp add: select_pairs_def ex_interactions_def zfill_def str_nat_small str_nat_large)

lemma ex_county_pairs:
  "county_pairs 5 ex_interactions =
     [(''01001020100'', ''1'', ''01001''), (''01001020100'', ''2'', ''01001''),
      (''06037101110'', ''1'', ''06037'')]"
  by (simp add: county_pairs_def ex_select_pairs)



lemma ex_site_meta:
  "site_meta_of ex_site_table =
     [(''1'', Some ''DC Fast'', Some ''AV'', Some ''Uber'', 10),
      (''2'', Some ''DC Fast'', Some ''AV'', Some ''Uber'', 6)]"
  by (simp add: site_meta_of_def ex_site_table_def str_nat_small)



lemma groupby_agg_regions:
  "Region_ID ` set (groupby_agg b region site_id rows) = region ` fst ` set rows"
proof (rule set_eqI)
  fix r
  show "r \<in> Region_ID ` set (groupby_agg b region site_id rows) \<longleftrightarrow>
        r \<in> region ` fst ` set rows"
  proof
    assume "r \<in> Region_ID ` set (groupby_agg b region site_id rows)"
    then obtain row where "row \<in> set (groupby_agg b region site_id rows)" and "r = Region_ID row"
      by blast
    with groupby_agg_region [of row b region site_id rows]
    show "r \<in> region ` fst ` set rows"
      by simp
  next
    assume "r \<in> region ` fst ` set rows"
    then obtain a m where am: "(a, m) \<in> set rows" and r: "r = region a"
      by auto
    obtain t s p where c: "categories m = (t, s, p)"
      by (cases "categories m")
    let ?k = "(region a, t, s, p)"
    from am c have "?k \<in> (\<lambda>(a, m). (region a, categories m)) ` set rows"
      by force
    then have "(\<lambda>(r, t, s, p).
        \<lparr>Range_Cover = b, Region_ID = r,
         Count_Customer_Sites =
           card {site_id a |a m. (a, m) \<in> set rows \<and> region a = r \<and> categories m = (t, s, p)},
         agg_Site_Type = t, agg_Customer_Segment = s, agg_Interested_Party = p,
         Total_Stalls = sum_list (map (\<lambda>(a, m). stalls m)
            (filter (\<lambda>(a, m). (region a, categories m) = (r, t, s, p)) rows))\<rparr>) ?k
      \<in> set (groupby_agg b region site_id rows)"
      unfolding groupby_agg_set by (rule imageI)
    then have "Region_ID ((\<lambda>(r, t, s, p).
        \<lparr>Range_Cover = b, Region_ID = r,
         Count_Customer_Sites =
           card {site_id a |a m. (a, m) \<in> set rows \<and> region a = r \<and> categories m = (t, s, p)},
         agg_Site_Type = t, agg_Customer_Segment = s, agg_Interested_Party = p,
         Total_Stalls = sum_list (map (\<lambda>(a, m). stalls m)
            (filter (\<lambda>(a, m). (region a, categories m) = (r, t, s, p)) rows))\<rparr>) ?k)
      \<in> Region_ID ` set (groupby_agg b region site_id rows)"
      by (rule imageI)
    then show "r \<in> Region_ID ` set (groupby_agg b region site_id rows)"
      by (simp add: r)
  qed
qed

lemma agg_regions:
  assumes "(case merge_many_to_one kl fst left meta of Inl e \<Rightarrow> Inl e
            | Inr rows \<Rightarrow> Inr (groupby_agg b reg idf rows)) = Inr out"
  shows "Region_ID ` set out = reg ` set left"
proof -
  have "fst ` set (map (\<lambda>l. (l, find (\<lambda>r. fst r = kl l) meta)) left) = set left"
    by (force simp: image_iff)
  then show ?thesis
    unfolding agg_Inr(2) [OF assms] groupby_agg_regions by simp
qed

lemma county_pairs_counties:
  "(\<lambda>(t, i, c). c) ` set (county_pairs b df) = (\<lambda>(t, i). take 5 t) ` set (select_pairs b df)"
proof -
  have "(\<lambda>(t, i, c). c) ` set (county_pairs b df) =
        fst ` (\<lambda>(t, i, c). (c, i)) ` set (county_pairs b df)"
    by (force simp: image_iff)
  also have "\<dots> = fst ` (\<lambda>(t, i). (take 5 t, i)) ` set (select_pairs b df)"
    by (simp only: county_pairs_keys)
  also have "\<dots> = (\<lambda>(t, i). take 5 t) ` set (select_pairs b df)"
    by (force simp: image_iff)
  finally show ?thesis .
qed

lemma select_pairs_tracts:
  "(\<lambda>(t, i). f t) ` set (select_pairs b df) =
   (\<lambda>x. f (zfill 11 (py_str (ix_Geoid x)))) ` {x \<in> set df. ix_Cover_Range x = Some (of_int b)}"
  unfolding select_pairs_set by (force simp: image_iff)

lemma merge_left_Cons:
  "merge_left kl kr (l # left) right =
     (case filter (\<lambda>r. kr r = kl l) right of [] \<Rightarrow> [(l, None)] | ms \<Rightarrow> map (\<lambda>r. (l, Some r)) ms)
     @ merge_left kl kr left right"
  by (simp add: merge_left_def)

lemma merge_left_Nil: "merge_left kl kr [] right = []"
  by (simp add: merge_left_def)

lemma merge_left_set:
  "(l, Some r) \<in> set (merge_left kl kr left right) \<longleftrightarrow>
   l \<in> set left \<and> r \<in> set right \<and> kr r = kl l"
proof (induction left)
  case Nil
  show ?case by (simp add: merge_left_Nil)
next
  case (Cons a left)
  have "(l, Some r) \<in> set (case filter (\<lambda>r. kr r = kl a) right of [] \<Rightarrow> [(a, None)]
                            | ms \<Rightarrow> map (\<lambda>r. (a, Some r)) ms) \<longleftrightarrow>
        l = a \<and> r \<in> set (filter (\<lambda>r. kr r = kl a) right)"
    by (cases "filter (\<lambda>r. kr r = kl a) right") auto
  with Cons show ?case
    by (auto simp: merge_left_Cons)
qed

lemma concat_matched_set:
  "(a, n) \<in> set (concat (map (\<lambda>(a, m). case m of None \<Rightarrow> [] | Some (c, n) \<Rightarrow> [(a, n)]) ml)) \<longleftrightarrow>
   (\<exists>c. (a, Some (c, n)) \<in> set ml)"
proof (induction ml)
  case Nil
  show ?case by simp
next
  case (Cons x ml)
  obtain a' m' where x: "x = (a', m')"
    by (cases x)
  show ?case
  proof (cases m')
    case None
    with Cons x show ?thesis by simp
  next
    case (Some cn)
    obtain c' n' where "cn = (c', n')"
      by (cases cn)
    with Some Cons x show ?thesis by auto
  qed
qed

lemma msa_pairs_set:
  assumes "((t, i, c), n) \<in> set (msa_pairs b df msa_map)"
  shows "(t, i) \<in> set (select_pairs b df) \<and> c = take 5 t \<and> (take 5 t, n) \<in> set msa_map"
proof -
  let ?ml = "merge_left (\<lambda>(t, i, c). c) fst (msa_county_pairs b df) msa_map"
  let ?cc = "concat (map (\<lambda>(a, m). case m of None \<Rightarrow> [] | Some (c, n) \<Rightarrow> [(a, n)]) ?ml)"
  from assms have "((t, i, c), n) \<in> set (drop_duplicates (\<lambda>((t, i, c), n). (n, i)) ?cc)"
    unfolding msa_pairs_def .
  then have "((t, i, c), n) \<in> set ?cc"
    by (rule subsetD [OF drop_duplicates_set_subset])
  then obtain c' where "((t, i, c), Some (c', n)) \<in> set ?ml"
    unfolding concat_matched_set by (rule exE)
  then have m: "(t, i, c) \<in> set (msa_county_pairs b df)" and n: "(c', n) \<in> set msa_map"
    and c: "c' = c"
    unfolding merge_left_set by auto
  from m have "(t, i, c) \<in> (\<lambda>(t, i). (t, i, take 5 t)) ` set (select_pairs b df)"
    unfolding msa_county_pairs_set .
  then obtain p where p: "p \<in> set (select_pairs b df)" and e: "(t, i, c) = (\<lambda>(t, i). (t, i, take 5 t)) p"
    by (rule imageE)
  obtain t' i' where "p = (t', i')"
    by (cases p)
  with p e have "(t, i) \<in> set (select_pairs b df)" and "c = take 5 t"
    by simp_all
  with n c show ?thesis
    by simp
qed

lemma msa_pairs_complete:
  assumes "(t, i) \<in> set (select_pairs b df)" and "(take 5 t, n) \<in> set msa_map"
  shows "\<exists>t' c. ((t', i, c), n) \<in> set (msa_pairs b df msa_map)"
proof -
  let ?ml = "merge_left (\<lambda>(t, i, c). c) fst (msa_county_pairs b df) msa_map"
  let ?cc = "concat (map (\<lambda>(a, m). case m of None \<Rightarrow> [] | Some (c, n) \<Rightarrow> [(a, n)]) ?ml)"
  let ?key = "\<lambda>((t, i, c), n). (n, i)"
  from assms(1) have "(\<lambda>(t, i). (t, i, take 5 t)) (t, i) \<in>
      (\<lambda>(t, i). (t, i, take 5 t)) ` set (select_pairs b df)"
    by (rule imageI)
  then have "(t, i, take 5 t) \<in> set (msa_county_pairs b df)"
    unfolding msa_county_pairs_set by simp
  with assms(2) have "((t, i, take 5 t), Some (take 5 t, n)) \<in> set ?ml"
    unfolding merge_left_set by simp
  then have "((t, i, take 5 t), n) \<in> set ?cc"
    unfolding concat_matched_set by (rule exI)
  then have "?key ((t, i, take 5 t), n) \<in> ?key ` set ?cc"
    by (rule imageI)
  then have "(n, i) \<in> ?key ` set (drop_duplicates ?key ?cc)"
    unfolding drop_duplicates_keys by simp
  then obtain y where y: "y \<in> set (msa_pairs b df msa_map)" and k: "(n, i) = ?key y"
    unfolding msa_pairs_def by (rule imageE)
  obtain t' i' c' n' where "y = ((t', i', c'), n')"
    by (cases y) auto
  with y k show ?thesis
    by auto
qed

lemma msa_pairs_regions:
  "(\<lambda>((t, i, c), n). n) ` set (msa_pairs b df msa_map) =
     {n. \<exists>x \<in> set df. ix_Cover_Range x = Some (of_int b) \<and>
           (take 5 (zfill 11 (py_str (ix_Geoid x))), n) \<in> set msa_map}"
proof (rule set_eqI)
  fix n
  show "n \<in> (\<lambda>((t, i, c), n). n) ` set (msa_pairs b df msa_map) \<longleftrightarrow>
        n \<in> {n. \<exists>x \<in> set df. ix_Cover_Range x = Some (of_int b) \<and>
           (take 5 (zfill 11 (py_str (ix_Geoid x))), n) \<in> set msa_map}"
  proof
    assume "n \<in> (\<lambda>((t, i, c), n). n) ` set (msa_pairs b df msa_map)"
    then obtain t i c where "((t, i, c), n) \<in> set (msa_pairs b df msa_map)"
      by auto
    from msa_pairs_set [OF this]
    have "(t, i) \<in> set (select_pairs b df)" and "(take 5 t, n) \<in> set msa_map"
      by simp_all
    then show "n \<in> {n. \<exists>x \<in> set df. ix_Cover_Range x = Some (of_int b) \<and>
           (take 5 (zfill 11 (py_str (ix_Geoid x))), n) \<in> set msa_map}"
      by (auto simp: select_pairs_set)
  next
    assume "n \<in> {n. \<exists>x \<in> set df. ix_Cover_Range x = Some (of_int b) \<and>
           (take 5 (zfill 11 (py_str (ix_Geoid x))), n) \<in> set msa_map}"
    then obtain x where x: "x \<in> set df" "ix_Cover_Range x = Some (of_int b)"
      and m: "(take 5 (zfill 11 (py_str (ix_Geoid x))), n) \<in> set msa_map"
      by blast
    from x have "(zfill 11 (py_str (ix_Geoid x)), py_str (ix_Index_ID x)) \<in> set (select_pairs b df)"
      unfolding select_pairs_set by blast
    from msa_pairs_complete [OF this m]
    obtain t' c where "((t', py_str (ix_Index_ID x), c), n) \<in> set (msa_pairs b df msa_map)"
      by blast
    then have "(\<lambda>((t, i, c), n). n) ((t', py_str (ix_Index_ID x), c), n) \<in>
        (\<lambda>((t, i, c), n). n) ` set (msa_pairs b df msa_map)"
      by (rule imageI)
    then show "n \<in> (\<lambda>((t, i, c), n). n) ` set (msa_pairs b df msa_map)"
      by simp
  qed
qed

lemma county_regions:
  assumes "build_county_agg_for_buffer b df sites = Inr out"
  shows "Region_ID ` set out =
     (\<lambda>x. take 5 (zfill 11 (py_str (ix_Geoid x)))) ` {x \<in> set df. ix_Cover_Range x = Some (of_int b)}"
  unfolding agg_regions [OF assms [unfolded build_county_agg_for_buffer_def Let_def]]
    county_pairs_counties
  by (rule select_pairs_tracts)

lemma msa_regions:
  assumes "build_msa_agg_for_buffer b df sites msa_map = Inr out"
  shows "Region_ID ` set out =
     {n. \<exists>x \<in> set df. ix_Cover_Range x = Some (of_int b) \<and>
           (take 5 (zfill 11 (py_str (ix_Geoid x))), n) \<in> set msa_map}"
  unfolding agg_regions [OF assms [unfolded build_msa_agg_for_buffer_def Let_def]]
  by (rule msa_pairs_regions)


text \<open>
  Claim C3. The county ID is the first five characters of the tract ID, and nothing else:
  the regions of the county-level output are exactly the five-character prefixes of the
  normalised tract IDs of the radius, and the regions of the metro-level output are exactly
  the metro codes that the map gives for these prefixes. A valid 11-digit tract ID is
  unchanged by the normalisation, so its own first five characters are a region of the
  county output, and every metro code mapped to them is a region of the metro output.
\<close>

theorem county_id_is_tract_prefix:
  "(build_county_agg_for_buffer b df sites = Inr out \<longrightarrow>
      Region_ID ` set out =
        (\<lambda>x. take 5 (zfill 11 (py_str (ix_Geoid x)))) `
          {x \<in> set df. ix_Cover_Range x = Some (of_int b)} \<and>
      (\<forall>x \<in> set df. ix_Cover_Range x = Some (of_int b) \<and> valid_tract_id (py_str (ix_Geoid x)) \<longrightarrow>
          take 5 (py_str (ix_Geoid x)) \<in> Region_ID ` set out)) \<and>
   (build_msa_agg_for_buffer b df sites msa_map = Inr outm \<longrightarrow>
      Region_ID ` set outm =
        {n. \<exists>x \<in> set df. ix_Cover_Range x = Some (of_int b) \<and>
              (take 5 (zfill 11 (py_str (ix_Geoid x))), n) \<in> set msa_map} \<and>
      (\<forall>x \<in> set df. \<forall>n. ix_Cover_Range x = Some (of_int b) \<and> valid_tract_id (py_str (ix_Geoid x)) \<and>
          (take 5 (py_str (ix_Geoid x)), n) \<in> set msa_map \<longrightarrow> n \<in> Region_ID ` set outm)) \<and>
   (\<forall>(t, i, c) \<in> set (county_pairs b df). c = take 5 t) \<and>
   (\<forall>(t, i, c) \<in> set (msa_county_pairs b df). c = take 5 t)"
proof -
  have v: "zfill 11 (py_str (ix_Geoid x)) = py_str (ix_Geoid x)"
    if "valid_tract_id (py_str (ix_Geoid x))" for x
    using that by (simp add: valid_tract_id_def zfill_id)
  have A: "Region_ID ` set out =
        (\<lambda>x. take 5 (zfill 11 (py_str (ix_Geoid x)))) `
          {x \<in> set df. ix_Cover_Range x = Some (of_int b)} \<and>
      (\<forall>x \<in> set df. ix_Cover_Range x = Some (of_int b) \<and> valid_tract_id (py_str (ix_Geoid x)) \<longrightarrow>
          take 5 (py_str (ix_Geoid x)) \<in> Region_ID ` set out)"
    if o: "build_county_agg_for_buffer b df sites = Inr out"
  proof (rule conjI)
    show r: "Region_ID ` set out =
        (\<lambda>x. take 5 (zfill 11 (py_str (ix_Geoid x)))) `
          {x \<in> set df. ix_Cover_Range x = Some (of_int b)}"
      by (rule county_regions [OF o])
    show "\<forall>x \<in> set df. ix_Cover_Range x = Some (of_int b) \<and> valid_tract_id (py_str (ix_Geoid x)) \<longrightarrow>
          take 5 (py_str (ix_Geoid x)) \<in> Region_ID ` set out"
    proof (intro ballI impI)
      fix x
      assume x: "x \<in> set df"
        and h: "ix_Cover_Range x = Some (of_int b) \<and> valid_tract_id (py_str (ix_Geoid x))"
      from x h have "x \<in> {x \<in> set df. ix_Cover_Range x = Some (of_int b)}"
        by simp
      then have "take 5 (zfill 11 (py_str (ix_Geoid x))) \<in>
          (\<lambda>x. take 5 (zfill 11 (py_str (ix_Geoid x)))) `
          {x \<in> set df. ix_Cover_Range x = Some (of_int b)}"
        by (rule imageI)
      with h show "take 5 (py_str (ix_Geoid x)) \<in> Region_ID ` set out"
        unfolding r by (simp add: v)
    qed
  qed
  have B: "Region_ID ` set outm =
        {n. \<exists>x \<in> set df. ix_Cover_Range x = Some (of_int b) \<and>
              (take 5 (zfill 11 (py_str (ix_Geoid x))), n) \<in> set msa_map} \<and>
      (\<forall>x \<in> set df. \<forall>n. ix_Cover_Range x = Some (of_int b) \<and> valid_tract_id (py_str (ix_Geoid x)) \<and>
          (take 5 (py_str (ix_Geoid x)), n) \<in> set msa_map \<longrightarrow> n \<in> Region_ID ` set outm)"
    if o: "build_msa_agg_for_buffer b df sites msa_map = Inr outm"
  proof (rule conjI)
    show r: "Region_ID ` set outm =
        {n. \<exists>x \<in> set df. ix_Cover_Range x = Some (of_int b) \<and>
              (take 5 (zfill 11 (py_str (ix_Geoid x))), n) \<in> set msa_map}"
      by (rule msa_regions [OF o])
    show "\<forall>x \<in> set df. \<forall>n. ix_Cover_Range x = Some (of_int b) \<and> valid_tract_id (py_str (ix_Geoid x)) \<and>
          (take 5 (py_str (ix_Geoid x)), n) \<in> set msa_map \<longrightarrow> n \<in> Region_ID ` set outm"
    proof (intro ballI allI impI)
      fix x n
      assume x: "x \<in> set df"
        and h: "ix_Cover_Range x = Some (of_int b) \<and> valid_tract_id (py_str (ix_Geoid x)) \<and>
          (take 5 (py_str (ix_Geoid x)), n) \<in> set msa_map"
      then have "(take 5 (zfill 11 (py_str (ix_Geoid x))), n) \<in> set msa_map"
        by (simp add: v)
      with x h show "n \<in> Region_ID ` set outm"
        unfolding r by blast
    qed
  qed
  have C: "\<forall>(t, i, c) \<in> set (county_pairs b df). c = take 5 t"
    using county_pairs_subset [of b df] by auto
  have D: "\<forall>(t, i, c) \<in> set (msa_county_pairs b df). c = take 5 t"
    by (auto simp: msa_county_pairs_set)
  show ?thesis
    by (rule conjI [OF impI [OF A] conjI [OF impI [OF B] conjI [OF C D]]])
qed

lemma ex_county_agg:
  "build_county_agg_for_buffer 5 ex_interactions ex_site_table =
     Inr [\<lparr>Range_Cover = 5, Region_ID = ''01001'', Count_Customer_Sites = 2,
           agg_Site_Type = Some ''DC Fast'', agg_Customer_Segment = Some ''AV'',
           agg_Interested_Party = Some ''Uber'', Total_Stalls = 16\<rparr>,
          \<lparr>Range_Cover = 5, Region_ID = ''06037'', Count_Customer_Sites = 1,
           agg_Site_Type = Some ''DC Fast'', agg_Customer_Segment = Some ''AV'',
           agg_Interested_Party = Some ''Uber'', Total_Stalls = 10\<rparr>]"
  by (simp add: build_county_agg_for_buffer_def ex_county_pairs ex_site_meta
      merge_many_to_one_def merge_left_def groupby_agg_def categories_def stalls_def nunique_def
      na_last_def less_eq_char_def less_char_def)

lemma ex_msa_agg:
  "build_msa_agg_for_buffer 5 ex_interactions ex_site_table ex_msa_map =
     Inr [\<lparr>Range_Cover = 5, Region_ID = 33860, Count_Customer_Sites = 2,
           agg_Site_Type = Some ''DC Fast'', agg_Customer_Segment = Some ''AV'',
           agg_Interested_Party = Some ''Uber'', Total_Stalls = 16\<rparr>]"
  by (simp add: build_msa_agg_for_buffer_def msa_pairs_def msa_county_pairs_def ex_select_pairs
      ex_site_meta ex_msa_map_def zfill_def merge_many_to_one_def merge_left_def groupby_agg_def
      categories_def stalls_def nunique_def na_last_def)


theorem county_id_is_tract_prefix_witness:
  "valid_tract_id ''01001020100'' \<and>
   map Region_ID (case build_county_agg_for_buffer 5 ex_interactions ex_site_table of
                    Inl e \<Rightarrow> [] | Inr out \<Rightarrow> out) = [''01001'', ''06037''] \<and>
   map Region_ID (case build_msa_agg_for_buffer 5 ex_interactions ex_site_table ex_msa_map of
                    Inl e \<Rightarrow> [] | Inr out \<Rightarrow> out) = [33860]"
proof -
  let ?x = "\<lparr>ix_Cover_Range = Some 5, ix_Geoid = StrCell ''01001020100'', ix_Index_ID = IntCell 1\<rparr>"
  let ?out = "[\<lparr>Range_Cover = 5, Region_ID = ''01001'', Count_Customer_Sites = 2,
           agg_Site_Type = Some ''DC Fast'', agg_Customer_Segment = Some ''AV'',
           agg_Interested_Party = Some ''Uber'', Total_Stalls = 16\<rparr>,
          \<lparr>Range_Cover = 5, Region_ID = ''06037'', Count_Customer_Sites = 1,
           agg_Site_Type = Some ''DC Fast'', agg_Customer_Segment = Some ''AV'',
           agg_Interested_Party = Some ''Uber'', Total_Stalls = 10\<rparr>]"
  let ?outm = "[\<lparr>Range_Cover = 5, Region_ID = 33860 :: int, Count_Customer_Sites = 2,
           agg_Site_Type = Some ''DC Fast'', agg_Customer_Segment = Some ''AV'',
           agg_Interested_Party = Some ''Uber'', Total_Stalls = 16\<rparr>]"
  have v: "valid_tract_id ''01001020100''"
    by (simp add: valid_tract_id_def)
  have x1: "?x \<in> set ex_interactions"
    by (simp add: ex_interactions_def)
  have x2: "ix_Cover_Range ?x = Some (of_int 5) \<and> valid_tract_id (py_str (ix_Geoid ?x))"
    using v by simp
  have x3: "ix_Cover_Range ?x = Some (of_int 5) \<and> valid_tract_id (py_str (ix_Geoid ?x)) \<and>
       (take 5 (py_str (ix_Geoid ?x)), 33860) \<in> set ex_msa_map"
    using v by (simp add: ex_msa_map_def)
  note t = county_id_is_tract_prefix [where b = 5 and df = ex_interactions
      and sites = ex_site_table and msa_map = ex_msa_map and out = ?out and outm = ?outm]
  note c = conjunct2 [OF mp [OF conjunct1 [OF t] ex_county_agg]]
  note m = conjunct2 [OF mp [OF conjunct1 [OF conjunct2 [OF t]] ex_msa_agg]]
  have "take 5 (py_str (ix_Geoid ?x)) \<in> Region_ID ` set ?out"
    by (rule mp [OF bspec [OF c x1] x2])
  moreover have "33860 \<in> Region_ID ` set ?outm"
    by (rule mp [OF spec [OF bspec [OF m x1]] x3])
  moreover have "map Region_ID ?out = [''01001'', ''06037'']" "map Region_ID ?outm = [33860]"
    by simp_all
  ultimately show ?thesis
    using v by (simp only: ex_county_agg ex_msa_agg sum.case simp_thms)
qed







lemma drop_duplicates_filter:
  assumes "\<And>x y. key x = key y \<Longrightarrow> P x = P y"
  shows "drop_duplicates key (filter P xs) = filter P (drop_duplicates key xs)"
  using assms
proof (induction key xs rule: drop_duplicates.induct)
  case (1 key)
  show ?case by simp
next
  case (2 key x xs)
  have ih: "drop_duplicates key (filter P (filter (\<lambda>y. key y \<noteq> key x) xs)) =
            filter P (drop_duplicates key (filter (\<lambda>y. key y \<noteq> key x) xs))"
    using "2.IH" "2.prems" by blast
  have comm: "filter (\<lambda>y. key y \<noteq> key x) (filter P xs) = filter P (filter (\<lambda>y. key y \<noteq> key x) xs)"
    by (simp add: conj_commute)
  show ?case
  proof (cases "P x")
    case True
    then show ?thesis
      by (simp add: comm ih del: filter_filter)
  next
    case False
    have "P y \<Longrightarrow> key y \<noteq> key x" for y
      using False "2.prems" [of y x] by auto
    then have "filter P (filter (\<lambda>y. key y \<noteq> key x) xs) = filter P xs"
      by (auto intro: filter_cong)
    with False ih show ?thesis
      by (simp del: filter_filter)
  qed
qed

lemma select_pairs_filter:
  "select_pairs b (filter (\<lambda>x. P (zfill 11 (py_str (ix_Geoid x)))) df) =
     filter (\<lambda>(t, i). P t) (select_pairs b df)"
proof -
  let ?f = "\<lambda>x. (zfill 11 (py_str (ix_Geoid x)), py_str (ix_Index_ID x))"
  let ?Q = "\<lambda>x. ix_Cover_Range x = Some (of_int b)"
  let ?G = "\<lambda>x. P (zfill 11 (py_str (ix_Geoid x)))"
  have "select_pairs b (filter ?G df) = drop_duplicates (\<lambda>p. p) (map ?f (filter ?Q (filter ?G df)))"
    by (simp only: select_pairs_def)
  also have "filter ?Q (filter ?G df) = filter ?G (filter ?Q df)"
    by (simp add: conj_commute)
  also have "map ?f (filter ?G (filter ?Q df)) = filter (\<lambda>(t, i). P t) (map ?f (filter ?Q df))"
    by (simp add: filter_map comp_def del: filter_filter)
  also have "drop_duplicates (\<lambda>p. p) (filter (\<lambda>(t, i). P t) (map ?f (filter ?Q df))) =
      filter (\<lambda>(t, i). P t) (drop_duplicates (\<lambda>p. p) (map ?f (filter ?Q df)))"
    by (rule drop_duplicates_filter) simp
  finally show ?thesis
    by (simp only: select_pairs_def)
qed

lemma msa_county_pairs_eq:
  "msa_county_pairs b df = map (\<lambda>(t, i). (t, i, take 5 t)) (select_pairs b df)"
proof -
  have "zfill 5 (take 5 t) = take 5 t" if "(t, i) \<in> set (select_pairs b df)" for t i
  proof -
    from that obtain x :: interaction_row where "t = zfill 11 (py_str (ix_Geoid x))"
      unfolding select_pairs_set by auto
    then have "11 \<le> length t"
      by (simp add: zfill_length)
    then show ?thesis by (simp add: zfill_id)
  qed
  then show ?thesis
    unfolding msa_county_pairs_def by (auto intro: map_cong)
qed

lemma merge_left_filter_matched:
  "concat (map (\<lambda>(a, m). case m of None \<Rightarrow> [] | Some r \<Rightarrow> f a r)
             (merge_left kl kr (filter (\<lambda>l. kl l \<in> kr ` set right) left) right)) =
   concat (map (\<lambda>(a, m). case m of None \<Rightarrow> [] | Some r \<Rightarrow> f a r)
             (merge_left kl kr left right))"
proof (induction left)
  case Nil
  show ?case by simp
next
  case (Cons l left)
  show ?case
  proof (cases "kl l \<in> kr ` set right")
    case True
    with Cons show ?thesis
      by (simp add: merge_left_Cons)
  next
    case False
    have "\<forall>r \<in> set right. kr r \<noteq> kl l"
    proof
      fix r assume "r \<in> set right"
      then have "kr r \<in> kr ` set right"
        by (rule imageI)
      with False show "kr r \<noteq> kl l"
        by auto
    qed
    then have "filter (\<lambda>r. kr r = kl l) right = []"
      by (simp add: filter_empty_conv)
    with False Cons show ?thesis
      by (simp add: merge_left_Cons)
  qed
qed

lemma msa_pairs_absent:
  "msa_pairs b (filter (\<lambda>x. take 5 (zfill 11 (py_str (ix_Geoid x))) \<in> fst ` set msa_map) df) msa_map =
   msa_pairs b df msa_map"
proof -
  let ?P = "\<lambda>t. take 5 t \<in> fst ` set msa_map"
  have "msa_county_pairs b (filter (\<lambda>x. ?P (zfill 11 (py_str (ix_Geoid x)))) df) =
        filter (\<lambda>l. (\<lambda>(t, i, c). c) l \<in> fst ` set msa_map) (msa_county_pairs b df)"
    unfolding msa_county_pairs_eq
    using select_pairs_filter [of b ?P df]
    by (simp add: filter_map comp_def case_prod_unfold)
  then show ?thesis
    unfolding msa_pairs_def
    by (simp only: merge_left_filter_matched)
qed

lemma groupby_agg_Nil: "groupby_agg b reg idf [] = []"
  by (simp add: groupby_agg_def)


text \<open>
  Claim C4. The metro level keeps a pair only if the county of its tract is a key of the
  county-to-metro map: the output is the same as on the interactions without the pairs of
  absent counties, in rows, counts and sums; its regions are exactly the metro codes that
  the map gives for the counties of the radius; if no county of the radius is in the map
  the output is the empty table. The builder fails only when the site table has a
  repeated ID (\<^verbatim>\<open>validate="many_to_one"\<close>), whatever the counties and the map.
\<close>

theorem metro_rows_only_for_mapped_counties:
  "build_msa_agg_for_buffer b
     (filter (\<lambda>x. take 5 (zfill 11 (py_str (ix_Geoid x))) \<in> fst ` set msa_map) df) sites msa_map =
   build_msa_agg_for_buffer b df sites msa_map \<and>
   (build_msa_agg_for_buffer b df sites msa_map = Inr out \<longrightarrow>
      Region_ID ` set out =
        {n. \<exists>x \<in> set df. ix_Cover_Range x = Some (of_int b) \<and>
              (take 5 (zfill 11 (py_str (ix_Geoid x))), n) \<in> set msa_map}) \<and>
   ((\<forall>x \<in> set df. ix_Cover_Range x = Some (of_int b) \<longrightarrow>
        take 5 (zfill 11 (py_str (ix_Geoid x))) \<notin> fst ` set msa_map) \<and>
    distinct (map fst (site_meta_of sites)) \<longrightarrow>
      build_msa_agg_for_buffer b df sites msa_map = Inr []) \<and>
   ((\<exists>e. build_msa_agg_for_buffer b df sites msa_map = Inl e) \<longleftrightarrow>
      \<not> distinct (map fst (site_meta_of sites)))"
proof -
  let ?P = "\<lambda>x. take 5 (zfill 11 (py_str (ix_Geoid x))) \<in> fst ` set msa_map"
  have A: "build_msa_agg_for_buffer b (filter ?P df) sites msa_map =
            build_msa_agg_for_buffer b df sites msa_map"
    unfolding build_msa_agg_for_buffer_def msa_pairs_absent ..
  have B: "Region_ID ` set out =
        {n. \<exists>x \<in> set df. ix_Cover_Range x = Some (of_int b) \<and>
              (take 5 (zfill 11 (py_str (ix_Geoid x))), n) \<in> set msa_map}"
    if "build_msa_agg_for_buffer b df sites msa_map = Inr out"
    using that by (rule msa_regions)
  have C: "build_msa_agg_for_buffer b df sites msa_map = Inr []"
    if h: "(\<forall>x \<in> set df. ix_Cover_Range x = Some (of_int b) \<longrightarrow> \<not> ?P x) \<and>
      distinct (map fst (site_meta_of sites))"
  proof -
    from h have "\<forall>x \<in> set (filter ?P df). ix_Cover_Range x \<noteq> Some (of_int b)"
      by auto
    then have "filter (\<lambda>x. ix_Cover_Range x = Some (of_int b)) (filter ?P df) = []"
      unfolding filter_empty_conv by blast
    then have "select_pairs b (filter ?P df) = []"
      by (simp only: select_pairs_def list.map drop_duplicates.simps)
    then have "msa_pairs b (filter ?P df) msa_map = []"
      by (simp add: msa_pairs_def msa_county_pairs_def merge_left_Nil)
    then have "msa_pairs b df msa_map = []"
      by (simp only: msa_pairs_absent)
    with h show ?thesis
      by (simp add: build_msa_agg_for_buffer_def merge_many_to_one_def merge_left_Nil
          groupby_agg_Nil)
  qed
  have D: "(\<exists>e. build_msa_agg_for_buffer b df sites msa_map = Inl e) \<longleftrightarrow>
      \<not> distinct (map fst (site_meta_of sites))"
    by (cases "distinct (map fst (site_meta_of sites))")
      (simp_all add: build_msa_agg_for_buffer_def merge_many_to_one_def Let_def)
  show ?thesis
    by (rule conjI [OF A conjI [OF impI [OF B] conjI [OF impI [OF C] D]]])
qed

theorem metro_rows_only_for_mapped_counties_witness:
  "''06037'' \<notin> fst ` set ex_msa_map \<and>
   build_msa_agg_for_buffer 5
     (filter (\<lambda>x. take 5 (zfill 11 (py_str (ix_Geoid x))) \<in> fst ` set ex_msa_map) ex_interactions)
     ex_site_table ex_msa_map =
     Inr [\<lparr>Range_Cover = 5, Region_ID = 33860, Count_Customer_Sites = 2,
           agg_Site_Type = Some ''DC Fast'', agg_Customer_Segment = Some ''AV'',
           agg_Interested_Party = Some ''Uber'', Total_Stalls = 16\<rparr>] \<and>
   build_msa_agg_for_buffer 5
     [\<lparr>ix_Cover_Range = Some 5, ix_Geoid = StrCell ''06037101110'', ix_Index_ID = IntCell 1\<rparr>]
     ex_site_table ex_msa_map = Inr []"
proof -
  let ?df = "[\<lparr>ix_Cover_Range = Some 5, ix_Geoid = StrCell ''06037101110'',
               ix_Index_ID = IntCell 1\<rparr>]"
  have a: "''06037'' \<notin> fst ` set ex_msa_map"
    by (simp add: ex_msa_map_def)
  note t1 = metro_rows_only_for_mapped_counties [where b = 5 and df = ex_interactions
      and sites = ex_site_table and msa_map = ex_msa_map]
  have b: "build_msa_agg_for_buffer 5
     (filter (\<lambda>x. take 5 (zfill 11 (py_str (ix_Geoid x))) \<in> fst ` set ex_msa_map) ex_interactions)
     ex_site_table ex_msa_map =
     Inr [\<lparr>Range_Cover = 5, Region_ID = 33860, Count_Customer_Sites = 2,
           agg_Site_Type = Some ''DC Fast'', agg_Customer_Segment = Some ''AV'',
           agg_Interested_Party = Some ''Uber'', Total_Stalls = 16\<rparr>]"
    unfolding conjunct1 [OF t1] by (rule ex_msa_agg)
  note t2 = metro_rows_only_for_mapped_counties [where b = 5 and df = ?df
      and sites = ex_site_table and msa_map = ex_msa_map]
  have h: "(\<forall>x \<in> set ?df. ix_Cover_Range x = Some (of_int 5) \<longrightarrow>
        take 5 (zfill 11 (py_str (ix_Geoid x))) \<notin> fst ` set ex_msa_map) \<and>
    distinct (map fst (site_meta_of ex_site_table))"
    by (simp add: ex_msa_map_def ex_site_meta zfill_def)
  have c: "build_msa_agg_for_buffer 5 ?df ex_site_table ex_msa_map = Inr []"
    by (rule mp [OF conjunct1 [OF conjunct2 [OF conjunct2 [OF t2]]] h])
  show ?thesis
    by (rule conjI [OF a conjI [OF b c]])
qed

end
